theory Spec2Isabelle
  imports Main
begin

section \<open>Data model (types.ts)\<close>

text \<open>
  Optional TypeScript properties (\<open>imageAUrl?: string\<close>) are \<open>option\<close> values:
  \<open>None\<close> is \<open>undefined\<close>. The field \<open>id\<close> is named \<open>scene_id\<close> and the field
  \<open>context\<close> is named \<open>scene_context\<close>, since both names are taken in Isabelle;
  for the same reason the views \<open>front\<close>, \<open>side\<close>, \<open>back\<close> of the reference sheet
  are \<open>front_view\<close>, \<open>side_view\<close>, \<open>back_view\<close>.
\<close>

record ConsistencyBible =
  characterVisuals :: string
  environmentVisuals :: string

record Scene =
  scene_id :: int
  title :: string
  scene_context :: string
  imageADescription :: string
  imageBDescription :: string
  motionPrompt :: string
  characterDirection :: "string option"
  characterExpression :: "string option"
  characterPose :: "string option"
  imageAUrl :: "string option"
  imageBUrl :: "string option"
  isGeneratingImage :: "bool option"
  retryAttempt :: "nat option"
  imageAFailed :: "bool option"
  imageBFailed :: "bool option"

record CharacterReferenceSheet =
  front_view :: string
  side_view :: string
  back_view :: string

record StoryboardData =
  consistencyBible :: ConsistencyBible
  scenes :: "Scene list"
  characterReferenceSheet :: "CharacterReferenceSheet option"

text \<open>
  JavaScript truthiness of an optional string: \<open>undefined\<close> and the empty string are
  falsy, every other string is truthy.
\<close>

definition truthy :: "string option \<Rightarrow> bool" where
  "truthy v = (case v of None \<Rightarrow> False | Some s \<Rightarrow> s \<noteq> [])"

text \<open>Truthiness of an optional boolean flag (\<open>undefined\<close> and \<open>false\<close> are falsy).\<close>

definition flagSet :: "bool option \<Rightarrow> bool" where
  "flagSet v = (v = Some True)"

section \<open>Export gate (downloadService.ts)\<close>

text \<open>\<open>storyboard.scenes.every(scene => scene.imageAUrl && scene.imageBUrl)\<close>\<close>

definition areAllImagesGenerated :: "StoryboardData \<Rightarrow> bool" where
  "areAllImagesGenerated storyboard =
     list_all (\<lambda>scene. truthy (imageAUrl scene) \<and> truthy (imageBUrl scene)) (scenes storyboard)"

text \<open>
  \<open>getGeneratedImagesCount\<close> returns the pair \<open>{ total, generated }\<close>; the \<open>reduce\<close>
  over the scenes is a left fold starting at 0.
\<close>

record ImagesCount =
  total :: nat
  generated :: nat

definition getGeneratedImagesCount :: "StoryboardData \<Rightarrow> ImagesCount" where
  "getGeneratedImagesCount storyboard =
     \<lparr> total = length (scenes storyboard) * 2,
       generated = foldl (\<lambda>count scene. count + (if truthy (imageAUrl scene) then 1 else 0)
                                            + (if truthy (imageBUrl scene) then 1 else 0))
                         0 (scenes storyboard) \<rparr>"


section \<open>Errors\<close>

text \<open>A thrown JavaScript \<open>Error\<close> is a value carrying its message.\<close>

datatype error = Error string

fun message :: "error \<Rightarrow> string" where
  "message (Error m) = m"

section \<open>Strings\<close>

text \<open>
  \<open>String.prototype.startsWith\<close> and \<open>String.prototype.includes\<close> on character lists
  (\<open>includes\<close> is an Isabelle keyword).
\<close>

fun startsWith :: "string \<Rightarrow> string \<Rightarrow> bool" where
  "startsWith s [] = True"
| "startsWith [] (c # cs) = False"
| "startsWith (x # xs) (c # cs) = (x = c \<and> startsWith xs cs)"

fun includes_str :: "string \<Rightarrow> string \<Rightarrow> bool" where
  "includes_str [] sub = (sub = [])"
| "includes_str (x # xs) sub = (startsWith (x # xs) sub \<or> includes_str xs sub)"


section \<open>Archive export (downloadService.ts, DownloadSection.tsx)\<close>

text \<open>
  The archive is the list of its entries, a file name with its content. The content of
  an image entry is the blob fetched from the image URL; the text entries (README, JSON
  data, motion prompts, consistency guide) are present in the model without their text.
  \<open>zip.file\<close> replaces an entry of the same name.
\<close>

datatype file_content = ImageBlob string | TextFile

type_synonym archive = "(string \<times> file_content) list"

fun zipFile :: "string \<Rightarrow> file_content \<Rightarrow> archive \<Rightarrow> archive" where
  "zipFile name content [] = [(name, content)]"
| "zipFile name content ((n, c) # files) =
     (if n = name then (n, content) # files else (n, c) # zipFile name content files)"

text \<open>
  What the browser and JSZip decide: whether fetching a URL gives a blob (\<open>urlToBlob\<close>
  throws otherwise), whether \<open>zip.folder\<close> returns a folder, and whether
  \<open>zip.generateAsync\<close> succeeds.
\<close>

record zip_env =
  urlToBlob :: "string \<Rightarrow> string option"
  zipFolder :: bool
  referenceFolder :: bool
  generateAsync :: bool

text \<open>\<open>scene.id.toString().padStart(2, '0')\<close>\<close>

definition digitChar :: "nat \<Rightarrow> char" where
  "digitChar n = ''0123456789'' ! n"

function natToString :: "nat \<Rightarrow> string" where
  "natToString n = (if n < 10 then [digitChar n] else natToString (n div 10) @ [digitChar (n mod 10)])"
  by pat_completeness auto
termination
  by (relation "measure (\<lambda>n. n)") auto

declare natToString.simps [simp del]

definition toString :: "int \<Rightarrow> string" where
  "toString i = (if i < 0 then CHR ''-'' # natToString (nat (- i)) else natToString (nat i))"

definition padStart :: "nat \<Rightarrow> char \<Rightarrow> string \<Rightarrow> string" where
  "padStart n c s = replicate (n - length s) c @ s"

text \<open>
  \<open>try { const blob = await urlToBlob(url); folder.file(fileName, blob); } catch { ... }\<close>:
  a failed fetch is logged and the entry is left out.
\<close>

definition addImage :: "zip_env \<Rightarrow> string \<Rightarrow> string \<Rightarrow> archive \<Rightarrow> archive" where
  "addImage env fileName url files =
     (case urlToBlob env url of
        Some blob \<Rightarrow> zipFile fileName (ImageBlob blob) files
      | None \<Rightarrow> files)"

text \<open>The two \<open>if (scene.imageAUrl)\<close> / \<open>if (scene.imageBUrl)\<close> blocks for one scene.\<close>

definition addSceneImages :: "zip_env \<Rightarrow> archive \<Rightarrow> Scene \<Rightarrow> archive" where
  "addSceneImages env files scene =
     (let files1 = (if truthy (imageAUrl scene)
                    then addImage env (''Scene_'' @ padStart 2 (CHR ''0'') (toString (scene_id scene)) @ ''_A.png'')
                           (the (imageAUrl scene)) files
                    else files)
      in if truthy (imageBUrl scene)
         then addImage env (''Scene_'' @ padStart 2 (CHR ''0'') (toString (scene_id scene)) @ ''_B.png'')
                (the (imageBUrl scene)) files1
         else files1)"

text \<open>
  \<open>downloadImagesAsZip\<close>. It makes no test on the completeness of the storyboard: an
  image that is missing is skipped. Its errors are \<open>Failed to create ZIP folder\<close> and,
  for anything thrown inside the outer \<open>try\<close>, \<open>Failed to create ZIP file\<close>; its result
  is the archive handed to the browser for download.
\<close>

definition downloadImagesAsZip :: "zip_env \<Rightarrow> StoryboardData \<Rightarrow> string option \<Rightarrow> error + archive" where
  "downloadImagesAsZip env storyboard characterImage =
     (if \<not> zipFolder env then Inl (Error ''Failed to create ZIP folder'')
      else
        (let files1 = (if truthy characterImage
                       then addImage env ''character-main.png'' (the characterImage) []
                       else []);
             files2 = (case characterReferenceSheet storyboard of
                         None \<Rightarrow> files1
                       | Some refSheet \<Rightarrow>
                           if referenceFolder env then
                             (let r1 = (if front_view refSheet \<noteq> []
                                        then addImage env ''character-references/character-front-view.png''
                                               (front_view refSheet) files1
                                        else files1);
                                  r2 = (if side_view refSheet \<noteq> []
                                        then addImage env ''character-references/character-side-view.png''
                                               (side_view refSheet) r1
                                        else r1)
                              in if back_view refSheet \<noteq> []
                                 then addImage env ''character-references/character-back-view.png''
                                        (back_view refSheet) r2
                                 else r2)
                           else files1);
             files3 = zipFile ''consistency-guide.txt'' TextFile
                        (zipFile ''motion-prompts.txt'' TextFile
                          (zipFile ''storyboard-data.json'' TextFile
                            (zipFile ''README.txt'' TextFile files2)));
             files4 = foldl (addSceneImages env) files3 (scenes storyboard)
         in if generateAsync env then Inr files4 else Inl (Error ''Failed to create ZIP file'')))"

text \<open>
  The state of the DownloadSection component, with the archives delivered to the user,
  and its handler \<open>handleDownloadZip\<close>, which holds the test on completeness.
\<close>

record download_state =
  isDownloadingZip :: bool
  downloadError :: "string option"
  delivered :: "archive list"

definition handleDownloadZip ::
  "zip_env \<Rightarrow> StoryboardData \<Rightarrow> string option \<Rightarrow> download_state \<Rightarrow> download_state" where
  "handleDownloadZip env storyboard characterImage ds =
     (if \<not> areAllImagesGenerated storyboard
      then ds\<lparr>downloadError := Some ''Please wait for all images to be generated before downloading.''\<rparr>
      else
        (case downloadImagesAsZip env storyboard characterImage of
           Inr zipBlob \<Rightarrow>
             ds\<lparr>isDownloadingZip := False, downloadError := None, delivered := delivered ds @ [zipBlob]\<rparr>
         | Inl err \<Rightarrow>
             ds\<lparr>isDownloadingZip := False,
                downloadError := Some ''Failed to create ZIP file. Please try again.''\<rparr>))"


section \<open>Analysis client (geminiService.generateStoryboardAnalysis)\<close>

subsection \<open>JSON values and JSON.parse\<close>

text \<open>
  \<open>JSON.parse\<close> is a built-in of the language, not code of the repository. It is modelled
  by a recursive-descent parser for the JSON grammar (RFC 8259): \<open>None\<close> stands for the
  \<open>SyntaxError\<close> it throws. A number is kept as its literal text. Strings are lists of
  8-bit characters, so a \<open>\uXXXX\<close> escape is decoded to the low byte of its code unit.
  Keys of an object are kept in source order; a later duplicate key wins on lookup, as
  in JavaScript.
\<close>

datatype json =
  JNull | JBool bool | JNumber string | JString string
  | JArray "json list" | JObject "(string \<times> json) list"

definition isWs :: "char \<Rightarrow> bool" where
  "isWs c = (c = CHR '' '' \<or> c = CHR 0x09 \<or> c = CHR 0x0A \<or> c = CHR 0x0D)"

definition skipWs :: "string \<Rightarrow> string" where
  "skipWs cs = dropWhile isWs cs"

definition isDigit :: "char \<Rightarrow> bool" where
  "isDigit c = (c \<in> set ''0123456789'')"

definition hexValue :: "char \<Rightarrow> nat option" where
  "hexValue c =
     (if c \<in> set ''0123456789'' then Some (of_char c - 48)
      else if c \<in> set ''abcdef'' then Some (of_char c - 87)
      else if c \<in> set ''ABCDEF'' then Some (of_char c - 55)
      else None)"

definition unescape :: "char \<Rightarrow> char option" where
  "unescape e =
     (if e = CHR 0x22 then Some (CHR 0x22)
      else if e = CHR 0x5C then Some (CHR 0x5C)
      else if e = CHR ''/'' then Some (CHR ''/'')
      else if e = CHR ''b'' then Some (CHR 0x08)
      else if e = CHR ''f'' then Some (CHR 0x0C)
      else if e = CHR ''n'' then Some (CHR 0x0A)
      else if e = CHR ''r'' then Some (CHR 0x0D)
      else if e = CHR ''t'' then Some (CHR 0x09)
      else None)"

text \<open>The characters of a string after its opening quote, up to the closing quote.\<close>

fun parseChars :: "string \<Rightarrow> (string \<times> string) option" where
  "parseChars [] = None"
| "parseChars (c # cs) =
     (if c = CHR 0x22 then Some ([], cs)
      else if c = CHR 0x5C then
        (case cs of
           [] \<Rightarrow> None
         | e # cs1 \<Rightarrow>
             if e = CHR ''u'' then
               (case cs1 of
                  h1 # h2 # h3 # h4 # cs2 \<Rightarrow>
                    (case (hexValue h1, hexValue h2, hexValue h3, hexValue h4) of
                       (Some a, Some b, Some c3, Some d) \<Rightarrow>
                         map_option (\<lambda>(s, r). (char_of (c3 * 16 + d) # s, r)) (parseChars cs2)
                     | _ \<Rightarrow> None)
                | _ \<Rightarrow> None)
             else
               (case unescape e of
                  None \<Rightarrow> None
                | Some ch \<Rightarrow> map_option (\<lambda>(s, r). (ch # s, r)) (parseChars cs1)))
      else if (of_char c :: nat) < 32 then None
      else map_option (\<lambda>(s, r). (c # s, r)) (parseChars cs))"

text \<open>
  A number literal: an optional minus sign, an integer part without a leading zero, an
  optional fraction and an optional exponent.
\<close>

definition parseDigits :: "string \<Rightarrow> (string \<times> string) option" where
  "parseDigits cs =
     (if takeWhile isDigit cs = [] then None
      else Some (takeWhile isDigit cs, dropWhile isDigit cs))"

definition parseNumber :: "string \<Rightarrow> (string \<times> string) option" where
  "parseNumber cs =
     (let (sign, r0) = (case cs of c # r \<Rightarrow> if c = CHR ''-'' then ([c], r) else ([], cs) | [] \<Rightarrow> ([], cs))
      in case parseDigits r0 of
           None \<Rightarrow> None
         | Some (ds, r1) \<Rightarrow>
             if hd ds = CHR ''0'' \<and> length ds > 1 then None
             else
               (let fracPart =
                      (case r1 of
                         c # r \<Rightarrow>
                           if c = CHR ''.'' then
                             (case parseDigits r of
                                None \<Rightarrow> None
                              | Some (fs, r2) \<Rightarrow> Some (c # fs, r2))
                           else Some ([], r1)
                       | [] \<Rightarrow> Some ([], r1))
                in case fracPart of
                     None \<Rightarrow> None
                   | Some (frac, r2) \<Rightarrow>
                       (case r2 of
                          c # r \<Rightarrow>
                            if c = CHR ''e'' \<or> c = CHR ''E'' then
                              (let (esign, r3) =
                                     (case r of
                                        s # r' \<Rightarrow> if s = CHR ''+'' \<or> s = CHR ''-'' then ([s], r') else ([], r)
                                      | [] \<Rightarrow> ([], r))
                               in case parseDigits r3 of
                                    None \<Rightarrow> None
                                  | Some (es, r4) \<Rightarrow> Some (sign @ ds @ frac @ [c] @ esign @ es, r4))
                            else Some (sign @ ds @ frac, r2)
                        | [] \<Rightarrow> Some (sign @ ds @ frac, r2))))"

text \<open>
  Values, the elements of a non-empty array and the members of a non-empty object. The
  first argument bounds the number of nested calls of the descent; \<open>JSON_parse\<close> starts
  it at twice the length of the text.
\<close>

fun parseValue :: "nat \<Rightarrow> string \<Rightarrow> (json \<times> string) option"
  and parseElements :: "nat \<Rightarrow> string \<Rightarrow> (json list \<times> string) option"
  and parseMembers :: "nat \<Rightarrow> string \<Rightarrow> ((string \<times> json) list \<times> string) option" where
  "parseValue 0 cs = None"
| "parseValue (Suc n) cs =
     (case skipWs cs of
        [] \<Rightarrow> None
      | c # rest \<Rightarrow>
          if c = CHR ''{'' then
            (case skipWs rest of
               [] \<Rightarrow> None
             | c1 # r1 \<Rightarrow>
                 if c1 = CHR ''}'' then Some (JObject [], r1)
                 else map_option (\<lambda>(ms, r). (JObject ms, r)) (parseMembers n (c1 # r1)))
          else if c = CHR ''['' then
            (case skipWs rest of
               [] \<Rightarrow> None
             | c1 # r1 \<Rightarrow>
                 if c1 = CHR '']'' then Some (JArray [], r1)
                 else map_option (\<lambda>(vs, r). (JArray vs, r)) (parseElements n (c1 # r1)))
          else if c = CHR 0x22 then map_option (\<lambda>(s, r). (JString s, r)) (parseChars rest)
          else if startsWith (c # rest) ''true'' then Some (JBool True, drop 4 (c # rest))
          else if startsWith (c # rest) ''false'' then Some (JBool False, drop 5 (c # rest))
          else if startsWith (c # rest) ''null'' then Some (JNull, drop 4 (c # rest))
          else map_option (\<lambda>(lit, r). (JNumber lit, r)) (parseNumber (c # rest)))"
| "parseElements 0 cs = None"
| "parseElements (Suc n) cs =
     (case parseValue n cs of
        None \<Rightarrow> None
      | Some (v, r) \<Rightarrow>
          (case skipWs r of
             [] \<Rightarrow> None
           | c # r1 \<Rightarrow>
               if c = CHR '']'' then Some ([v], r1)
               else if c = CHR '','' then map_option (\<lambda>(vs, r2). (v # vs, r2)) (parseElements n r1)
               else None))"
| "parseMembers 0 cs = None"
| "parseMembers (Suc n) cs =
     (case skipWs cs of
        [] \<Rightarrow> None
      | q # r0 \<Rightarrow>
          if q \<noteq> CHR 0x22 then None
          else
            (case parseChars r0 of
               None \<Rightarrow> None
             | Some (key, r1) \<Rightarrow>
                 (case skipWs r1 of
                    [] \<Rightarrow> None
                  | colon # r2 \<Rightarrow>
                      if colon \<noteq> CHR '':'' then None
                      else
                        (case parseValue n r2 of
                           None \<Rightarrow> None
                         | Some (v, r3) \<Rightarrow>
                             (case skipWs r3 of
                                [] \<Rightarrow> None
                              | c # r4 \<Rightarrow>
                                  if c = CHR ''}'' then Some ([(key, v)], r4)
                                  else if c = CHR '','' then
                                    map_option (\<lambda>(ms, r5). ((key, v) # ms, r5)) (parseMembers n r4)
                                  else None)))))"

definition JSON_parse :: "string \<Rightarrow> json option" where
  "JSON_parse text =
     (case parseValue (2 * length text + 2) text of
        None \<Rightarrow> None
      | Some (v, rest) \<Rightarrow> if skipWs rest = [] then Some v else None)"

subsection \<open>The expected shape\<close>

text \<open>
  The shape that the request declares in its \<open>responseSchema\<close>: an object with a
  \<open>consistencyBible\<close> (two strings) and an array \<open>scenes\<close> of objects with an integer
  \<open>id\<close> and eight strings. \<open>toStoryboardData\<close> reads a JSON value of that shape as a
  \<open>StoryboardData\<close> and is \<open>None\<close> on any other value.
\<close>

definition field :: "(string \<times> json) list \<Rightarrow> string \<Rightarrow> json option" where
  "field ms k = map_of (rev ms) k"

definition stringField :: "(string \<times> json) list \<Rightarrow> string \<Rightarrow> string option" where
  "stringField ms k = (case field ms k of Some (JString s) \<Rightarrow> Some s | _ \<Rightarrow> None)"

definition digitValue :: "char \<Rightarrow> nat" where
  "digitValue c = of_char c - 48"

definition integerLiteral :: "string \<Rightarrow> int option" where
  "integerLiteral lit =
     (case lit of
        [] \<Rightarrow> None
      | c # r \<Rightarrow>
          if c = CHR ''-'' then
            (if r \<noteq> [] \<and> list_all isDigit r
             then Some (- int (foldl (\<lambda>n d. 10 * n + digitValue d) 0 r)) else None)
          else
            (if list_all isDigit lit
             then Some (int (foldl (\<lambda>n d. 10 * n + digitValue d) 0 lit)) else None))"

definition toScene :: "json \<Rightarrow> Scene option" where
  "toScene v =
     (case v of
        JObject ms \<Rightarrow>
          (case (field ms ''id'', stringField ms ''title'', stringField ms ''context'',
                 stringField ms ''imageADescription'', stringField ms ''imageBDescription'',
                 stringField ms ''motionPrompt'', stringField ms ''characterDirection'',
                 stringField ms ''characterExpression'', stringField ms ''characterPose'') of
             (Some (JNumber lit), Some t, Some c, Some a, Some b, Some m, Some d, Some e, Some p) \<Rightarrow>
               (case integerLiteral lit of
                  None \<Rightarrow> None
                | Some i \<Rightarrow>
                    Some \<lparr> scene_id = i, title = t, scene_context = c, imageADescription = a,
                           imageBDescription = b, motionPrompt = m, characterDirection = Some d,
                           characterExpression = Some e, characterPose = Some p,
                           imageAUrl = None, imageBUrl = None, isGeneratingImage = None,
                           retryAttempt = None, imageAFailed = None, imageBFailed = None \<rparr>)
           | _ \<Rightarrow> None)
      | _ \<Rightarrow> None)"

fun allSome :: "'a option list \<Rightarrow> 'a list option" where
  "allSome [] = Some []"
| "allSome (None # xs) = None"
| "allSome (Some x # xs) = map_option (\<lambda>ys. x # ys) (allSome xs)"

definition toStoryboardData :: "json \<Rightarrow> StoryboardData option" where
  "toStoryboardData v =
     (case v of
        JObject ms \<Rightarrow>
          (case (field ms ''consistencyBible'', field ms ''scenes'') of
             (Some (JObject bible), Some (JArray vs)) \<Rightarrow>
               (case (stringField bible ''characterVisuals'', stringField bible ''environmentVisuals'',
                      allSome (map toScene vs)) of
                  (Some cv, Some ev, Some scs) \<Rightarrow>
                    Some \<lparr> consistencyBible = \<lparr> characterVisuals = cv, environmentVisuals = ev \<rparr>,
                           scenes = scs, characterReferenceSheet = None \<rparr>
                | _ \<Rightarrow> None)
           | _ \<Rightarrow> None)
      | _ \<Rightarrow> None)"

subsection \<open>generateStoryboardAnalysis\<close>

text \<open>
  The text backend either throws or answers with an optional text (\<open>response.text\<close>).
  An empty answer gives the error \<open>No response from Gemini.\<close>, a text that
  \<open>JSON.parse\<close> rejects gives \<open>Failed to parse storyboard data.\<close>, and any other text
  gives the parsed value, cast to \<open>StoryboardData\<close> without a test.
\<close>

datatype text_response = TextThrew error | TextAnswer "string option"

definition generateStoryboardAnalysis :: "text_response \<Rightarrow> error + json" where
  "generateStoryboardAnalysis response =
     (case response of
        TextThrew e \<Rightarrow> Inl e
      | TextAnswer text \<Rightarrow>
          if \<not> truthy text then Inl (Error ''No response from Gemini.'')
          else
            (case JSON_parse (the text) of
               None \<Rightarrow> Inl (Error ''Failed to parse storyboard data.'')
             | Some v \<Rightarrow> Inr v))"


section \<open>Generation backend (geminiService)\<close>

text \<open>
  The image backend (\<open>ai.models.generateContent\<close>) either throws or answers with a list of candidates,
  each holding the parts of its content; a part may carry inline data (mime type and
  base64 payload). \<open>response.candidates || []\<close> makes a missing candidate list the
  empty list.
\<close>

datatype part = Part "(string \<times> string) option"

type_synonym candidate = "part list"

datatype response = Threw error | Response "candidate list"

text \<open>
  The backend is outside the program: it is an oracle giving the outcome of the n-th
  call made. Observable effects are kept in a \<open>world\<close>: the number of backend calls made
  so far and the trace of events (backend calls, \<open>setTimeout\<close> waits in milliseconds and
  writes of the storyboard store), oldest first.
\<close>

type_synonym backend = "nat \<Rightarrow> response"

datatype event = Call string | Wait nat | Store "StoryboardData option"

record world =
  calls :: nat
  trace :: "event list"

text \<open>
  One backend call. The request is logged by the text that distinguishes it (the scene
  description or the view name); the rest of the prompt is fixed text around it.
\<close>

definition generateContent :: "backend \<Rightarrow> string \<Rightarrow> 'a world_scheme \<Rightarrow> response \<times> 'a world_scheme" where
  "generateContent ai request w =
     (ai (calls w), w\<lparr>calls := calls w + 1, trace := trace w @ [Call request]\<rparr>)"

text \<open>\<open>await new Promise(resolve => setTimeout(resolve, ms))\<close>\<close>

definition sleep :: "nat \<Rightarrow> 'a world_scheme \<Rightarrow> 'a world_scheme" where
  "sleep ms w = w\<lparr>trace := trace w @ [Wait ms]\<rparr>"

text \<open>
  \<open>part.inlineData && part.inlineData.data\<close> selects a part whose inline data has a
  non-empty payload; the image is then the data URL
  \<open>`data:${mimeType};base64,${data}`\<close>.
\<close>

fun inlineImage :: "part \<Rightarrow> string option" where
  "inlineImage (Part None) = None"
| "inlineImage (Part (Some (mimeType, payload))) =
     (if payload \<noteq> [] then Some (''data:'' @ mimeType @ '';base64,'' @ payload) else None)"

fun firstInlineImage :: "part list \<Rightarrow> string option" where
  "firstInlineImage [] = None"
| "firstInlineImage (p # ps) =
     (case inlineImage p of Some url \<Rightarrow> Some url | None \<Rightarrow> firstInlineImage ps)"

text \<open>The nested loops of \<open>generateSceneImage\<close> return the first image found.\<close>

fun findImage :: "candidate list \<Rightarrow> string option" where
  "findImage [] = None"
| "findImage (c # cs) =
     (case firstInlineImage c of Some url \<Rightarrow> Some url | None \<Rightarrow> findImage cs)"

definition generateSceneImage ::
  "backend \<Rightarrow> string \<Rightarrow> 'a world_scheme \<Rightarrow> (error + string) \<times> 'a world_scheme" where
  "generateSceneImage ai description w =
     (case generateContent ai description w of
        (Threw e, w1) \<Rightarrow> (Inl e, w1)
      | (Response candidates, w1) \<Rightarrow>
          (case findImage candidates of
             Some url \<Rightarrow> (Inr url, w1)
           | None \<Rightarrow> (Inl (Error ''No image generated.''), w1)))"

subsection \<open>Retry wrapper: generateSceneImageWithRetry\<close>

text \<open>
  The loop \<open>for (let attempt = 1; attempt <= maxRetries; attempt++)\<close> with the variable
  \<open>lastError\<close>. After a failed attempt that is not the last one it waits
  \<open>Math.min(1000 * Math.pow(2, attempt - 1), 5000)\<close> milliseconds. When the loop ends
  without a result it throws \<open>lastError || new Error(...)\<close>.
\<close>

function generateSceneImageWithRetry_loop ::
  "backend \<Rightarrow> string \<Rightarrow> nat \<Rightarrow> nat \<Rightarrow> error option \<Rightarrow> 'a world_scheme
     \<Rightarrow> (error + string) \<times> 'a world_scheme" where
  "generateSceneImageWithRetry_loop ai description maxRetries attempt lastError w =
     (if attempt \<le> maxRetries then
        (case generateSceneImage ai description w of
           (Inr result, w1) \<Rightarrow> (Inr result, w1)
         | (Inl err, w1) \<Rightarrow>
             generateSceneImageWithRetry_loop ai description maxRetries (attempt + 1) (Some err)
               (if attempt < maxRetries
                then sleep (min (1000 * 2 ^ (attempt - 1)) 5000) w1
                else w1))
      else
        (Inl (case lastError of
                Some e \<Rightarrow> e
              | None \<Rightarrow> Error ''Scene image generation failed after all retries''), w))"
  by pat_completeness auto
termination
  by (relation "measure (\<lambda>(ai, description, maxRetries, attempt, lastError, w). maxRetries + 1 - attempt)") auto

declare generateSceneImageWithRetry_loop.simps [simp del]

definition generateSceneImageWithRetry ::
  "backend \<Rightarrow> string \<Rightarrow> nat \<Rightarrow> 'a world_scheme \<Rightarrow> (error + string) \<times> 'a world_scheme" where
  "generateSceneImageWithRetry ai description maxRetries w =
     generateSceneImageWithRetry_loop ai description maxRetries 1 None w"

subsection \<open>Reference sheet: createCharacterReferenceSheet\<close>

text \<open>
  Inside the retry loop of one view the response is scanned candidate by candidate;
  the inner \<open>break\<close> leaves only the loop over the parts, so a later candidate with an
  image overwrites the result of an earlier one.
\<close>

definition scanView :: "candidate list \<Rightarrow> string \<Rightarrow> string" where
  "scanView candidates result =
     foldl (\<lambda>r c. case firstInlineImage c of Some url \<Rightarrow> url | None \<Rightarrow> r) result candidates"

text \<open>
  The loop \<open>while (retryCount < maxRetries)\<close> with \<open>maxRetries = 3\<close>. Only the
  \<open>catch\<close> branch increments \<open>retryCount\<close>; an answer without an image neither leaves
  the loop nor counts as an attempt. The loop may therefore run forever, and the model
  returns \<open>None\<close> when it does.
\<close>

partial_function (option) viewRetryLoop ::
  "backend \<Rightarrow> string \<Rightarrow> string \<Rightarrow> nat \<Rightarrow> 'a world_scheme \<Rightarrow> (string \<times> 'a world_scheme) option" where
  "viewRetryLoop ai viewName result retryCount w =
     (if retryCount < 3 then
        (case generateContent ai viewName w of
           (Response candidates, w1) \<Rightarrow>
             (if scanView candidates result \<noteq> []
              then Some (scanView candidates result, w1)
              else viewRetryLoop ai viewName (scanView candidates result) retryCount w1)
         | (Threw e, w1) \<Rightarrow>
             viewRetryLoop ai viewName result (retryCount + 1)
               (if retryCount + 1 < 3 then sleep (1000 * (retryCount + 1)) w1 else w1))
      else Some (result, w))"

text \<open>The three views are produced in the order front, side, back.\<close>

definition createCharacterReferenceSheet ::
  "backend \<Rightarrow> 'a world_scheme \<Rightarrow> (CharacterReferenceSheet \<times> 'a world_scheme) option" where
  "createCharacterReferenceSheet ai w =
     (case viewRetryLoop ai ''front'' [] 0 w of
        None \<Rightarrow> None
      | Some (f, w1) \<Rightarrow>
          (case viewRetryLoop ai ''side'' [] 0 w1 of
             None \<Rightarrow> None
           | Some (s, w2) \<Rightarrow>
               (case viewRetryLoop ai ''back'' [] 0 w2 of
                  None \<Rightarrow> None
                | Some (b, w3) \<Rightarrow>
                    Some (\<lparr>front_view = f, side_view = s, back_view = b\<rparr>, w3))))"

text \<open>
  What \<open>generateSceneImage\<close> makes of one backend answer: the error thrown by the
  call, the first image of the answer, or the error \<open>No image generated.\<close>
\<close>

definition imageOutcome :: "response \<Rightarrow> error + string" where
  "imageOutcome r =
     (case r of
        Threw e \<Rightarrow> Inl e
      | Response candidates \<Rightarrow>
          (case findImage candidates of
             Some url \<Rightarrow> Inr url
           | None \<Rightarrow> Inl (Error ''No image generated.'')))"


section \<open>Progress store (App component state)\<close>

text \<open>
  \<open>Partial<Scene>\<close> as the pipeline uses it: only the UI-state fields are ever patched.
  \<open>None\<close> means that the key is absent from the patch; \<open>noPatch\<close> is the empty object.
\<close>

record ScenePatch =
  p_imageAUrl :: "string option"
  p_imageBUrl :: "string option"
  p_isGeneratingImage :: "bool option"
  p_retryAttempt :: "nat option"
  p_imageAFailed :: "bool option"
  p_imageBFailed :: "bool option"

definition noPatch :: ScenePatch where
  "noPatch = \<lparr> p_imageAUrl = None, p_imageBUrl = None, p_isGeneratingImage = None,
               p_retryAttempt = None, p_imageAFailed = None, p_imageBFailed = None \<rparr>"

definition override :: "'a option \<Rightarrow> 'a option \<Rightarrow> 'a option" where
  "override old new = (case new of None \<Rightarrow> old | Some v \<Rightarrow> Some v)"

text \<open>The object spread \<open>{ ...s, ...updates }\<close>.\<close>

definition applyPatch :: "Scene \<Rightarrow> ScenePatch \<Rightarrow> Scene" where
  "applyPatch s updates =
     s\<lparr> imageAUrl := override (imageAUrl s) (p_imageAUrl updates),
        imageBUrl := override (imageBUrl s) (p_imageBUrl updates),
        isGeneratingImage := override (isGeneratingImage s) (p_isGeneratingImage updates),
        retryAttempt := override (retryAttempt s) (p_retryAttempt updates),
        imageAFailed := override (imageAFailed s) (p_imageAFailed updates),
        imageBFailed := override (imageBFailed s) (p_imageBFailed updates) \<rparr>"

text \<open>
  The state of the App component that the pipeline touches: the storyboard
  (\<open>useState\<close>), the shadow reference \<open>storyboardRef.current\<close>, the error message and
  the key flag.

  \<open>setStoryboard\<close> with an updater function queues the updater; React runs the queued
  updaters, in program order, when it next renders the component. The field
  \<open>storyboard\<close> holds the store with every queued updater applied, which is the value
  the next updater receives as \<open>prev\<close>. An assignment to the reference made inside an
  updater takes effect only when React runs that updater: \<open>pendingRef\<close> holds the value
  the queued updaters will have assigned to the reference once they have run (\<open>None\<close>
  when no such assignment is queued), and \<open>storyboardRef\<close> holds what
  \<open>storyboardRef.current\<close> reads now.
\<close>

record app_state = world +
  storyboard :: "StoryboardData option"
  storyboardRef :: "StoryboardData option"
  pendingRef :: "StoryboardData option"
  error :: "string option"
  hasApiKey :: bool

text \<open>
  A render of the component: the queued updaters run, so the last queued assignment
  to the reference takes effect. The queue renders whenever it yields to the event loop
  in an \<open>await\<close> of a generation call.
\<close>

definition render :: "app_state \<Rightarrow> app_state" where
  "render st =
     (case pendingRef st of
        None \<Rightarrow> st
      | Some newState \<Rightarrow> st\<lparr>storyboardRef := Some newState, pendingRef := None\<rparr>)"

text \<open>
  \<open>updateSceneInState\<close> queues an updater. The updater returns \<open>null\<close> on an empty
  store (leaving the reference alone), and otherwise merges the patch into every scene
  with the given id, assigns the new value to the reference and returns it as the new
  store. The assignment to the reference is part of the updater, so it is recorded as
  pending.
\<close>

definition updateSceneInState :: "int \<Rightarrow> ScenePatch \<Rightarrow> app_state \<Rightarrow> app_state" where
  "updateSceneInState sceneId updates st =
     (case storyboard st of
        None \<Rightarrow> st\<lparr>trace := trace st @ [Store None], storyboard := None\<rparr>
      | Some prev \<Rightarrow>
          (let newScenes = map (\<lambda>s. if scene_id s = sceneId then applyPatch s updates else s)
                               (scenes prev);
               newState = prev\<lparr>scenes := newScenes\<rparr>
           in st\<lparr>trace := trace st @ [Store (Some newState)],
                 storyboard := Some newState,
                 pendingRef := Some newState\<rparr>))"

text \<open>
  The other writes of the store in \<open>handleGenerate\<close>: the reset before the analysis
  (\<open>setStoryboard(null); storyboardRef.current = null\<close>), the replacement by the new
  analysis result (\<open>setStoryboard(data); storyboardRef.current = data\<close>) and the
  attachment of the reference sheet
  (\<open>setStoryboard(prev => prev ? { ...prev, characterReferenceSheet: referenceSheet } : null)\<close>).
\<close>

definition resetStoryboard :: "app_state \<Rightarrow> app_state" where
  "resetStoryboard st =
     st\<lparr>trace := trace st @ [Store None], storyboard := None, storyboardRef := None\<rparr>"

definition replaceStoryboard :: "StoryboardData \<Rightarrow> app_state \<Rightarrow> app_state" where
  "replaceStoryboard d st =
     st\<lparr>trace := trace st @ [Store (Some d)], storyboard := Some d, storyboardRef := Some d\<rparr>"

definition attachReferenceSheet :: "CharacterReferenceSheet \<Rightarrow> app_state \<Rightarrow> app_state" where
  "attachReferenceSheet referenceSheet st =
     (let new = (case storyboard st of
                   None \<Rightarrow> None
                 | Some prev \<Rightarrow> Some (prev\<lparr>characterReferenceSheet := Some referenceSheet\<rparr>))
      in st\<lparr>trace := trace st @ [Store new], storyboard := new\<rparr>)"

section \<open>Scene image pipeline (App component)\<close>

text \<open>
  \<open>err?.message || JSON.stringify(err)\<close>: an \<open>Error\<close> with an empty message is
  serialised as \<open>{}\<close>.
\<close>

definition errorMessage :: "error \<Rightarrow> string" where
  "errorMessage err = (if message err \<noteq> [] then message err else ''{}'')"

definition isAuthorizationError :: "string \<Rightarrow> bool" where
  "isAuthorizationError errMsg =
     (includes_str errMsg ''403'' \<or> includes_str errMsg ''PERMISSION_DENIED''
      \<or> includes_str errMsg ''Requested entity was not found'')"

text \<open>
  The body of the outer \<open>try\<close> of one first-pass iteration. Each of the two generation
  calls sits in its own \<open>try\<close>/\<open>catch\<close>, which turns every error of the call into a
  failure flag. The first component of the result is the error that escapes the body,
  if any. The component renders while the queue awaits a generation call, so the
  updaters queued before the call have run when the call is made.
\<close>

definition sceneImages :: "backend \<Rightarrow> Scene \<Rightarrow> app_state \<Rightarrow> error option \<times> app_state" where
  "sceneImages ai scene st0 =
     (let st1 = updateSceneInState (scene_id scene) (noPatch\<lparr>p_retryAttempt := Some 1\<rparr>) st0;
          (resA, st2) = generateSceneImageWithRetry ai (imageADescription scene) 3 (render st1);
          st3 = (case resA of
                   Inr imageA \<Rightarrow>
                     updateSceneInState (scene_id scene)
                       (noPatch\<lparr>p_imageAUrl := Some imageA, p_imageAFailed := Some False\<rparr>) st2
                 | Inl imgError \<Rightarrow>
                     updateSceneInState (scene_id scene) (noPatch\<lparr>p_imageAFailed := Some True\<rparr>) st2);
          st4 = updateSceneInState (scene_id scene) (noPatch\<lparr>p_retryAttempt := Some 2\<rparr>) st3;
          (resB, st5) = generateSceneImageWithRetry ai (imageBDescription scene) 3 (render st4);
          st6 = (case resB of
                   Inr imageB \<Rightarrow>
                     updateSceneInState (scene_id scene)
                       (noPatch\<lparr>p_imageBUrl := Some imageB, p_imageBFailed := Some False\<rparr>) st5
                 | Inl imgError \<Rightarrow>
                     updateSceneInState (scene_id scene) (noPatch\<lparr>p_imageBFailed := Some True\<rparr>) st5)
      in (None, st6))"

text \<open>
  One iteration of the first pass: set the flag, run the body, handle an escaping
  error (\<open>catch\<close>: on an authorization message set the error state, clear the key flag
  and the scene flag, and leave the function), and clear the flag (\<open>finally\<close>, which
  also runs on the \<open>return\<close>).
\<close>

datatype flow = Continue | Return

definition processScene :: "backend \<Rightarrow> Scene \<Rightarrow> app_state \<Rightarrow> flow \<times> app_state" where
  "processScene ai scene st0 =
     (let st1 = updateSceneInState (scene_id scene) (noPatch\<lparr>p_isGeneratingImage := Some True\<rparr>) st0;
          (thrown, st2) = sceneImages ai scene st1;
          clear = updateSceneInState (scene_id scene) (noPatch\<lparr>p_isGeneratingImage := Some False\<rparr>)
      in case thrown of
           None \<Rightarrow> (Continue, clear st2)
         | Some err \<Rightarrow>
             if isAuthorizationError (errorMessage err)
             then (Return,
                   clear (clear (st2\<lparr>error := Some ''Permission denied. You must select a valid API Key from a paid project to use these features.'',
                                     hasApiKey := False\<rparr>)))
             else (Continue, clear st2))"

fun firstPass :: "backend \<Rightarrow> Scene list \<Rightarrow> app_state \<Rightarrow> flow \<times> app_state" where
  "firstPass ai [] st = (Continue, st)"
| "firstPass ai (scene # rest) st =
     (case processScene ai scene st of
        (Return, st') \<Rightarrow> (Return, st')
      | (Continue, st') \<Rightarrow> firstPass ai rest st')"

text \<open>
  One iteration of the repair pass. \<open>scene\<close> is the snapshot taken from the reference
  when the pass began; an image is retried (with two attempts) when the snapshot lacks
  it.
\<close>

definition retryScene :: "backend \<Rightarrow> Scene \<Rightarrow> app_state \<Rightarrow> app_state" where
  "retryScene ai scene st0 =
     (let st1 = updateSceneInState (scene_id scene) (noPatch\<lparr>p_isGeneratingImage := Some True\<rparr>) st0;
          st2 = (if \<not> truthy (imageAUrl scene) then
                   (let s1 = updateSceneInState (scene_id scene) (noPatch\<lparr>p_retryAttempt := Some 3\<rparr>) st1;
                        (resA, s2) = generateSceneImageWithRetry ai (imageADescription scene) 2 (render s1)
                    in case resA of
                         Inr imageA \<Rightarrow>
                           updateSceneInState (scene_id scene)
                             (noPatch\<lparr>p_imageAUrl := Some imageA, p_imageAFailed := Some False\<rparr>) s2
                       | Inl err \<Rightarrow>
                           updateSceneInState (scene_id scene) (noPatch\<lparr>p_imageAFailed := Some True\<rparr>) s2)
                 else st1);
          st3 = (if \<not> truthy (imageBUrl scene) then
                   (let s1 = updateSceneInState (scene_id scene) (noPatch\<lparr>p_retryAttempt := Some 4\<rparr>) st2;
                        (resB, s2) = generateSceneImageWithRetry ai (imageBDescription scene) 2 (render s1)
                    in case resB of
                         Inr imageB \<Rightarrow>
                           updateSceneInState (scene_id scene)
                             (noPatch\<lparr>p_imageBUrl := Some imageB, p_imageBFailed := Some False\<rparr>) s2
                       | Inl err \<Rightarrow>
                           updateSceneInState (scene_id scene) (noPatch\<lparr>p_imageBFailed := Some True\<rparr>) s2)
                 else st2)
      in updateSceneInState (scene_id scene) (noPatch\<lparr>p_isGeneratingImage := Some False\<rparr>) st3)"

fun retryScenes :: "backend \<Rightarrow> Scene list \<Rightarrow> app_state \<Rightarrow> app_state" where
  "retryScenes ai [] st = st"
| "retryScenes ai (scene # rest) st = retryScenes ai rest (retryScene ai scene st)"

text \<open>
  \<open>retryMissingImages\<close> reads the scene list from the reference, not from its
  parameter \<open>data\<close>. It is called right after the last iteration of the first pass,
  with no \<open>await\<close> in between, so the reference still holds the value of the last
  render: the updaters queued since then (the outcome of the last image and the
  clearing of the flag) have not run.
\<close>

definition retryMissingImages :: "backend \<Rightarrow> StoryboardData \<Rightarrow> app_state \<Rightarrow> app_state" where
  "retryMissingImages ai data st =
     (case storyboardRef st of
        None \<Rightarrow> st
      | Some currentStoryboard \<Rightarrow>
          (let scenesWithMissingImages =
                 filter (\<lambda>scene. \<not> truthy (imageAUrl scene) \<or> \<not> truthy (imageBUrl scene))
                        (scenes currentStoryboard)
           in if length scenesWithMissingImages = 0 then st
              else retryScenes ai scenesWithMissingImages st))"

definition processImagesQueue :: "backend \<Rightarrow> StoryboardData \<Rightarrow> app_state \<Rightarrow> app_state" where
  "processImagesQueue ai data st =
     (case firstPass ai (scenes data) st of
        (Return, st') \<Rightarrow> st'
      | (Continue, st') \<Rightarrow> retryMissingImages ai data st')"

text \<open>The successive values of the store recorded in a trace, oldest first.\<close>

fun stores :: "event list \<Rightarrow> StoryboardData option list" where
  "stores [] = []"
| "stores (Store h # es) = h # stores es"
| "stores (Call d # es) = stores es"
| "stores (Wait ms # es) = stores es"

text \<open>The backend calls and waits recorded in a trace, oldest first.\<close>

definition backendEvents :: "event list \<Rightarrow> event list" where
  "backendEvents tr = filter (\<lambda>e. case e of Store h \<Rightarrow> False | Call d \<Rightarrow> True | Wait ms \<Rightarrow> True) tr"

section \<open>The analysis step of handleGenerate\<close>

text \<open>
  \<open>handleGenerate\<close> for a non-blank script, up to the result of the analysis call: it
  clears the error and the store, calls \<open>generateStoryboardAnalysis\<close>, and on an error
  sets the error message in its \<open>catch\<close> block. On success the first component is the
  analysis result, with which the function goes on (\<open>replaceStoryboard\<close>, the character
  image, \<open>attachReferenceSheet\<close>, \<open>processImagesQueue\<close>).
\<close>

definition handleGenerate_analysis :: "text_response \<Rightarrow> app_state \<Rightarrow> json option \<times> app_state" where
  "handleGenerate_analysis response st0 =
     (let st1 = resetStoryboard (st0\<lparr>error := None\<rparr>)
      in case generateStoryboardAnalysis response of
           Inr data \<Rightarrow> (Some data, st1)
         | Inl err \<Rightarrow>
             (let errMsg = errorMessage err
              in if isAuthorizationError errMsg
                 then (None, st1\<lparr>error := Some ''Permission denied. Please select a valid API Key.'',
                                   hasApiKey := False\<rparr>)
                 else (None, st1\<lparr>error := Some (if errMsg \<noteq> [] then errMsg
                                                  else ''An unexpected error occurred.'')\<rparr>)))"


section \<open>Example inputs\<close>

text \<open>
  A scene as the analysis returns it (no UI state yet), a plan of two scenes, the
  state of the App before a session, and backend answers: an image, an empty answer and
  an authorization failure.
\<close>

definition planScene :: "int \<Rightarrow> string \<Rightarrow> string \<Rightarrow> Scene" where
  "planScene i a b =
     \<lparr> scene_id = i, title = ''T'', scene_context = ''C'',
       imageADescription = a, imageBDescription = b, motionPrompt = ''M'',
       characterDirection = Some ''left'', characterExpression = None,
       characterPose = None,
       imageAUrl = None, imageBUrl = None, isGeneratingImage = None, retryAttempt = None,
       imageAFailed = None, imageBFailed = None \<rparr>"

definition plan2 :: StoryboardData where
  "plan2 =
     \<lparr> consistencyBible = \<lparr> characterVisuals = ''fox'', environmentVisuals = ''wood'' \<rparr>,
       scenes = [planScene 1 ''a'' ''b'', planScene 2 ''c'' ''d''],
       characterReferenceSheet = None \<rparr>"

definition state0 :: app_state where
  "state0 = \<lparr> calls = 0, trace = [], storyboard = None, storyboardRef = None,
              pendingRef = None, error = None, hasApiKey = True \<rparr>"

definition imageAnswer :: response where
  "imageAnswer = Response [[Part (Some (''image/png'', ''QQ''))]]"

definition emptyAnswer :: response where
  "emptyAnswer = Response []"

definition forbidden :: response where
  "forbidden = Threw (Error ''403 PERMISSION_DENIED'')"

text \<open>
  A backend whose first three calls (the three attempts for image A of the first scene)
  fail with an authorization error and whose later calls all return an image.
\<close>

definition forbiddenFirst :: backend where
  "forbiddenFirst n = (if n < 3 then forbidden else imageAnswer)"


text \<open>
  A backend that never throws and never returns an image, and one that returns an image
  from its fourth call on.
\<close>

definition alwaysEmpty :: backend where
  "alwaysEmpty n = emptyAnswer"

definition emptyThenImage :: backend where
  "emptyThenImage n = (if n < 3 then emptyAnswer else imageAnswer)"

text \<open>
  A storyboard whose first scene has image A only and whose second scene has no image,
  an environment in which every fetch and every JSZip operation succeeds, and the state
  of the download section before any download.
\<close>

definition partialBoard :: StoryboardData where
  "partialBoard = plan2\<lparr>scenes := [(planScene 1 ''a'' ''b'')\<lparr>imageAUrl := Some ''u''\<rparr>,
                                  planScene 2 ''c'' ''d'']\<rparr>"

definition env0 :: zip_env where
  "env0 = \<lparr> urlToBlob = (\<lambda>url. Some url), zipFolder = True, referenceFolder = True,
            generateAsync = True \<rparr>"

definition download0 :: download_state where
  "download0 = \<lparr> isDownloadingZip = False, downloadError = None, delivered = [] \<rparr>"

text \<open>A backend whose every call throws.\<close>

definition alwaysThrows :: backend where
  "alwaysThrows n = Threw (Error ''500'')"


text \<open>A backend whose every call returns an image, the image naming the call.\<close>

definition numbered :: backend where
  "numbered n = Response [[Part (Some (''image/png'', natToString n))]]"

section \<open>Notions used to state the properties of the pipeline\<close>

text \<open>
  The effect of one \<open>updateSceneInState\<close> on a scene list and on a storyboard, the
  successive storyboards produced by a list of patches to one scene id, and the patch
  that records the outcome of a generation call.
\<close>

definition patchScenes :: "int \<Rightarrow> ScenePatch \<Rightarrow> Scene list \<Rightarrow> Scene list" where
  "patchScenes i u scs = map (\<lambda>s. if scene_id s = i then applyPatch s u else s) scs"

definition patchBoard :: "int \<Rightarrow> ScenePatch \<Rightarrow> StoryboardData \<Rightarrow> StoryboardData" where
  "patchBoard i u b = b\<lparr>scenes := patchScenes i u (scenes b)\<rparr>"

fun boards :: "int \<Rightarrow> ScenePatch list \<Rightarrow> StoryboardData \<Rightarrow> StoryboardData list" where
  "boards i [] b = []"
| "boards i (u # us) b = patchBoard i u b # boards i us (patchBoard i u b)"

definition outcomePatchA :: "error + string \<Rightarrow> ScenePatch" where
  "outcomePatchA r =
     (case r of
        Inr url \<Rightarrow> noPatch\<lparr>p_imageAUrl := Some url, p_imageAFailed := Some False\<rparr>
      | Inl e \<Rightarrow> noPatch\<lparr>p_imageAFailed := Some True\<rparr>)"

definition outcomePatchB :: "error + string \<Rightarrow> ScenePatch" where
  "outcomePatchB r =
     (case r of
        Inr url \<Rightarrow> noPatch\<lparr>p_imageBUrl := Some url, p_imageBFailed := Some False\<rparr>
      | Inl e \<Rightarrow> noPatch\<lparr>p_imageBFailed := Some True\<rparr>)"

text \<open>A generation result that, when it is an image, is a non-empty URL.\<close>

definition properResult :: "error + string \<Rightarrow> bool" where
  "properResult r = (case r of Inr url \<Rightarrow> url \<noteq> [] | Inl e \<Rightarrow> True)"

text \<open>Events of the backend only: calls for the description \<open>d\<close> and waits.\<close>

definition backendOnly :: "string \<Rightarrow> event list \<Rightarrow> bool" where
  "backendOnly d evs = list_all (\<lambda>e. case e of Call d' \<Rightarrow> d' = d | Wait ms \<Rightarrow> True | Store h \<Rightarrow> False) evs"

text \<open>
  The patches that one iteration of the first pass and one iteration of the repair pass
  apply to the scene id, in order, given the results of the two generation calls. In the
  repair pass an image is retried when the snapshot \<open>scene\<close> lacks it.
\<close>

definition firstPassPatches :: "error + string \<Rightarrow> error + string \<Rightarrow> ScenePatch list" where
  "firstPassPatches rA rB =
     [noPatch\<lparr>p_isGeneratingImage := Some True\<rparr>, noPatch\<lparr>p_retryAttempt := Some 1\<rparr>,
      outcomePatchA rA, noPatch\<lparr>p_retryAttempt := Some 2\<rparr>, outcomePatchB rB,
      noPatch\<lparr>p_isGeneratingImage := Some False\<rparr>]"

definition repairPatches :: "Scene \<Rightarrow> error + string \<Rightarrow> error + string \<Rightarrow> ScenePatch list" where
  "repairPatches scene rA rB =
     [noPatch\<lparr>p_isGeneratingImage := Some True\<rparr>]
     @ (if \<not> truthy (imageAUrl scene)
        then [noPatch\<lparr>p_retryAttempt := Some 3\<rparr>, outcomePatchA rA] else [])
     @ (if \<not> truthy (imageBUrl scene)
        then [noPatch\<lparr>p_retryAttempt := Some 4\<rparr>, outcomePatchB rB] else [])
     @ [noPatch\<lparr>p_isGeneratingImage := Some False\<rparr>]"

text \<open>
  The store after a list of patches to one scene id (the store itself when the list is
  empty), and the sequences of store values that a pass over a list of scenes can
  produce: for each scene in turn, the boards of its patches for some pair of generation
  results. The first pass uses \<open>firstPassPatches\<close>, the repair pass \<open>repairPatches\<close>.
\<close>

definition finalBoard :: "int \<Rightarrow> ScenePatch list \<Rightarrow> StoryboardData \<Rightarrow> StoryboardData" where
  "finalBoard i us b = last (b # boards i us b)"

inductive passBoards ::
  "(Scene \<Rightarrow> error + string \<Rightarrow> error + string \<Rightarrow> ScenePatch list)
     \<Rightarrow> StoryboardData \<Rightarrow> Scene list \<Rightarrow> StoryboardData list \<Rightarrow> bool"
  for patches :: "Scene \<Rightarrow> error + string \<Rightarrow> error + string \<Rightarrow> ScenePatch list" where
  passNil: "passBoards patches b [] []"
| passCons:
    "properResult rA \<Longrightarrow> properResult rB \<Longrightarrow>
     passBoards patches (finalBoard (scene_id scene) (patches scene rA rB) b) rest bs \<Longrightarrow>
     passBoards patches b (scene # rest)
       (boards (scene_id scene) (patches scene rA rB) b @ bs)"

text \<open>The properties of scenes and storyboards that the theorems below speak about.\<close>

definition generating :: "Scene \<Rightarrow> bool" where
  "generating s = flagSet (isGeneratingImage s)"

definition atMostOneGenerating :: "StoryboardData \<Rightarrow> bool" where
  "atMostOneGenerating b = (length (filter generating (scenes b)) \<le> 1)"

definition settledA :: "Scene \<Rightarrow> bool" where
  "settledA s = (truthy (imageAUrl s) \<or> flagSet (imageAFailed s))"

definition settledB :: "Scene \<Rightarrow> bool" where
  "settledB s = (truthy (imageBUrl s) \<or> flagSet (imageBFailed s))"

definition accounted :: "Scene \<Rightarrow> bool" where
  "accounted s =
     ((truthy (imageAUrl s) \<and> truthy (imageBUrl s))
      \<or> imageAFailed s = Some True \<or> imageBFailed s = Some True)"

text \<open>
  \<open>keeps s t\<close>: every image that scene \<open>s\<close> has is still the image of scene \<open>t\<close>;
  \<open>urlsKept\<close> lifts this to the scene lists of two storyboards, position by position.
\<close>

definition keeps :: "Scene \<Rightarrow> Scene \<Rightarrow> bool" where
  "keeps s t =
     ((if truthy (imageAUrl s) then imageAUrl t = imageAUrl s else True)
      \<and> (if truthy (imageBUrl s) then imageBUrl t = imageBUrl s else True))"

definition urlsKept :: "StoryboardData \<Rightarrow> StoryboardData \<Rightarrow> bool" where
  "urlsKept b b' = list_all2 keeps (scenes b) (scenes b')"

text \<open>
  \<open>keepsAlong s us\<close>: applying the patches \<open>us\<close> to scene \<open>s\<close> one after the other, each
  step keeps the images that the scene has before the step.
\<close>

fun keepsAlong :: "Scene \<Rightarrow> ScenePatch list \<Rightarrow> bool" where
  "keepsAlong s [] = True"
| "keepsAlong s (u # us) = (keeps s (applyPatch s u) \<and> keepsAlong (applyPatch s u) us)"


section \<open>Properties of the export gate\<close>

lemma foldl_count_sum:
  "foldl (\<lambda>count scene. count + f scene + g scene) (n::nat) xs
   = n + sum_list (map (\<lambda>scene. f scene + g scene) xs)"
  by (induction xs arbitrary: n) simp_all

lemma sum_images_le:
  "sum_list (map (\<lambda>scene. (if truthy (imageAUrl scene) then 1 else 0)
                             + (if truthy (imageBUrl scene) then (1::nat) else 0)) xs)
   \<le> length xs * 2"
  by (induction xs) auto

lemma sum_images_full_iff:
  "sum_list (map (\<lambda>scene. (if truthy (imageAUrl scene) then 1 else 0)
                             + (if truthy (imageBUrl scene) then (1::nat) else 0)) xs)
     = length xs * 2
   \<longleftrightarrow> list_all (\<lambda>scene. truthy (imageAUrl scene) \<and> truthy (imageBUrl scene)) xs"
proof (induction xs)
  case Nil
  show ?case by simp
next
  case (Cons x xs)
  have le: "sum_list (map (\<lambda>scene. (if truthy (imageAUrl scene) then 1 else 0)
                             + (if truthy (imageBUrl scene) then (1::nat) else 0)) xs)
             \<le> length xs * 2"
    by (rule sum_images_le)
  show ?case
    using Cons.IH le by (auto split: if_splits)
qed

text \<open>
  C10. For every storyboard, \<open>areAllImagesGenerated\<close> holds exactly when
  \<open>getGeneratedImagesCount\<close> reports \<open>generated = total\<close>, where \<open>total\<close> is twice the
  number of scenes. With an empty scene list both hold (the gate is open with zero
  images), and the failure flags of a scene play no part in the gate.
\<close>

theorem areAllImagesGenerated_iff_count:
  "(areAllImagesGenerated s \<longleftrightarrow>
      generated (getGeneratedImagesCount s) = total (getGeneratedImagesCount s))
   \<and> total (getGeneratedImagesCount s) = 2 * length (scenes s)
   \<and> areAllImagesGenerated (s\<lparr>scenes := []\<rparr>)
   \<and> getGeneratedImagesCount (s\<lparr>scenes := []\<rparr>) = \<lparr>total = 0, generated = 0\<rparr>
   \<and> areAllImagesGenerated
         (s\<lparr>scenes := map (\<lambda>scene. scene\<lparr>imageAFailed := fa scene, imageBFailed := fb scene\<rparr>)
                           (scenes s)\<rparr>)
       = areAllImagesGenerated s"
proof -
  have count: "generated (getGeneratedImagesCount s)
      = sum_list (map (\<lambda>scene. (if truthy (imageAUrl scene) then 1 else 0)
                                 + (if truthy (imageBUrl scene) then (1::nat) else 0)) (scenes s))"
    by (simp add: getGeneratedImagesCount_def foldl_count_sum)
  have tot: "total (getGeneratedImagesCount s) = length (scenes s) * 2"
    by (simp add: getGeneratedImagesCount_def)
  have iff: "areAllImagesGenerated s \<longleftrightarrow>
      generated (getGeneratedImagesCount s) = total (getGeneratedImagesCount s)"
    unfolding count tot areAllImagesGenerated_def by (rule sum_images_full_iff [symmetric])
  have flags: "areAllImagesGenerated
         (s\<lparr>scenes := map (\<lambda>scene. scene\<lparr>imageAFailed := fa scene, imageBFailed := fb scene\<rparr>)
                           (scenes s)\<rparr>)
       = areAllImagesGenerated s"
    by (simp add: areAllImagesGenerated_def list_all_iff)
  show ?thesis
    using iff tot flags
    by (simp add: areAllImagesGenerated_def getGeneratedImagesCount_def)
qed

section \<open>Properties of the retry wrapper\<close>

lemma generateSceneImage_outcome:
  "generateSceneImage ai d w =
     (imageOutcome (ai (calls w)), w\<lparr>calls := calls w + 1, trace := trace w @ [Call d]\<rparr>)"
  by (simp add: generateSceneImage_def generateContent_def imageOutcome_def
           split: response.splits option.splits)

lemma retry_three_unfold:
  "generateSceneImageWithRetry ai d 3 w =
     (case imageOutcome (ai (calls w)) of
        Inr r1 \<Rightarrow> (Inr r1, w\<lparr>calls := calls w + 1, trace := trace w @ [Call d]\<rparr>)
      | Inl e1 \<Rightarrow>
          (case imageOutcome (ai (calls w + 1)) of
             Inr r2 \<Rightarrow>
               (Inr r2, w\<lparr>calls := calls w + 2,
                           trace := trace w @ [Call d, Wait (min (1000 * 2 ^ (1 - 1)) 5000), Call d]\<rparr>)
           | Inl e2 \<Rightarrow>
               (case imageOutcome (ai (calls w + 2)) of
                  Inr r3 \<Rightarrow>
                    (Inr r3, w\<lparr>calls := calls w + 3,
                                trace := trace w @ [Call d, Wait (min (1000 * 2 ^ (1 - 1)) 5000), Call d,
                                                    Wait (min (1000 * 2 ^ (2 - 1)) 5000), Call d]\<rparr>)
                | Inl e3 \<Rightarrow>
                    (Inl e3, w\<lparr>calls := calls w + 3,
                                trace := trace w @ [Call d, Wait (min (1000 * 2 ^ (1 - 1)) 5000), Call d,
                                                    Wait (min (1000 * 2 ^ (2 - 1)) 5000), Call d]\<rparr>))))"
  by (simp add: generateSceneImageWithRetry_def generateSceneImageWithRetry_loop.simps
        generateSceneImage_outcome sleep_def split: sum.splits)

text \<open>
  C4. With \<open>maxRetries = 3\<close> the wrapper calls the backend at least once and at most
  three times. It returns the first successful result; when all three attempts fail it
  throws the error of the third attempt itself. After the failed attempt number
  \<open>k < 3\<close> it waits \<open>min (1000 * 2 ^ (k - 1)) 5000\<close> milliseconds, and it does not wait
  after the last attempt.
\<close>

theorem generateSceneImageWithRetry_three_attempts:
  "generateSceneImageWithRetry ai d 3 w =
     (case imageOutcome (ai (calls w)) of
        Inr r1 \<Rightarrow> (Inr r1, w\<lparr>calls := calls w + 1, trace := trace w @ [Call d]\<rparr>)
      | Inl e1 \<Rightarrow>
          (case imageOutcome (ai (calls w + 1)) of
             Inr r2 \<Rightarrow>
               (Inr r2, w\<lparr>calls := calls w + 2,
                           trace := trace w @ [Call d, Wait (min (1000 * 2 ^ (1 - 1)) 5000), Call d]\<rparr>)
           | Inl e2 \<Rightarrow>
               (case imageOutcome (ai (calls w + 2)) of
                  Inr r3 \<Rightarrow>
                    (Inr r3, w\<lparr>calls := calls w + 3,
                                trace := trace w @ [Call d, Wait (min (1000 * 2 ^ (1 - 1)) 5000), Call d,
                                                    Wait (min (1000 * 2 ^ (2 - 1)) 5000), Call d]\<rparr>)
                | Inl e3 \<Rightarrow>
                    (Inl e3, w\<lparr>calls := calls w + 3,
                                trace := trace w @ [Call d, Wait (min (1000 * 2 ^ (1 - 1)) 5000), Call d,
                                                    Wait (min (1000 * 2 ^ (2 - 1)) 5000), Call d]\<rparr>))))
   \<and> calls w < calls (snd (generateSceneImageWithRetry ai d 3 w))
   \<and> calls (snd (generateSceneImageWithRetry ai d 3 w)) \<le> calls w + 3"
  by (simp add: retry_three_unfold split: sum.splits)


section \<open>What the retry wrapper does to the state\<close>

lemma stores_append: "stores (xs @ ys) = stores xs @ stores ys"
  by (induction xs rule: stores.induct) simp_all

lemma backendOnly_append: "backendOnly d (xs @ ys) \<longleftrightarrow> backendOnly d xs \<and> backendOnly d ys"
  by (simp add: backendOnly_def)

lemma backendOnly_stores: "backendOnly d evs \<Longrightarrow> stores evs = []"
  by (induction evs rule: stores.induct) (simp_all add: backendOnly_def)

lemma inlineImage_nonempty: "inlineImage p = Some url \<Longrightarrow> url \<noteq> []"
  by (cases p rule: inlineImage.cases) (auto split: if_splits)

lemma firstInlineImage_nonempty: "firstInlineImage ps = Some url \<Longrightarrow> url \<noteq> []"
  by (induction ps) (auto split: option.splits dest: inlineImage_nonempty)

lemma findImage_nonempty: "findImage cs = Some url \<Longrightarrow> url \<noteq> []"
  by (induction cs) (auto split: option.splits dest: firstInlineImage_nonempty)

lemma imageOutcome_proper: "properResult (imageOutcome r)"
  by (auto simp: properResult_def imageOutcome_def split: response.splits option.splits sum.splits
           dest: findImage_nonempty)

lemma retry_loop_run:
  "\<exists>n evs. generateSceneImageWithRetry_loop ai d m a l w
              = (fst (generateSceneImageWithRetry_loop ai d m a l w),
                 w\<lparr>calls := calls w + n, trace := trace w @ evs\<rparr>)
           \<and> backendOnly d evs
           \<and> properResult (fst (generateSceneImageWithRetry_loop ai d m a l w))"
proof (induction ai d m a l w rule: generateSceneImageWithRetry_loop.induct)
  case (1 ai d m a l w)
  show ?case
  proof (cases "a \<le> m")
    case False
    then have "generateSceneImageWithRetry_loop ai d m a l w
        = (Inl (case l of Some e \<Rightarrow> e
                | None \<Rightarrow> Error ''Scene image generation failed after all retries''),
           w\<lparr>calls := calls w + 0, trace := trace w @ []\<rparr>)"
      by (simp add: generateSceneImageWithRetry_loop.simps)
    moreover have "backendOnly d []" by (simp add: backendOnly_def)
    ultimately show ?thesis
      by (metis fst_conv properResult_def sum.case(1))
  next
    case True
    define w1 where "w1 = w\<lparr>calls := calls w + 1, trace := trace w @ [Call d]\<rparr>"
    show ?thesis
    proof (cases "imageOutcome (ai (calls w))")
      case (Inr r)
      then have run: "generateSceneImageWithRetry_loop ai d m a l w
                 = (Inr r, w\<lparr>calls := calls w + 1, trace := trace w @ [Call d]\<rparr>)"
        using True by (simp add: generateSceneImageWithRetry_loop.simps generateSceneImage_outcome)
      have "properResult (Inr r)"
        using imageOutcome_proper [of "ai (calls w)"] Inr by simp
      moreover have "backendOnly d [Call d]" by (simp add: backendOnly_def)
      ultimately show ?thesis unfolding run by (metis fst_conv)
    next
      case (Inl e)
      define w2 where "w2 = (if a < m then sleep (min (1000 * 2 ^ (a - 1)) 5000) w1 else w1)"
      have gen: "generateSceneImage ai d w = (Inl e, w1)"
        by (simp add: generateSceneImage_outcome Inl w1_def)
      have step: "generateSceneImageWithRetry_loop ai d m a l w
                  = generateSceneImageWithRetry_loop ai d m (a + 1) (Some e) w2"
        using True by (subst generateSceneImageWithRetry_loop.simps) (simp add: gen w2_def)
      from "1.IH" [OF True gen [symmetric] refl]
      obtain n evs where ih: "generateSceneImageWithRetry_loop ai d m (a + 1) (Some e) w2
              = (fst (generateSceneImageWithRetry_loop ai d m (a + 1) (Some e) w2),
                 w2\<lparr>calls := calls w2 + n, trace := trace w2 @ evs\<rparr>)"
        and bo: "backendOnly d evs"
        and pr: "properResult (fst (generateSceneImageWithRetry_loop ai d m (a + 1) (Some e) w2))"
        unfolding w2_def by blast
      obtain evs0 where w2: "w2 = w\<lparr>calls := calls w + 1, trace := trace w @ evs0\<rparr>"
        and bo0: "backendOnly d evs0"
      proof (cases "a < m")
        case True
        then have "w2 = w\<lparr>calls := calls w + 1, trace := trace w @ [Call d, Wait (min (1000 * 2 ^ (a - 1)) 5000)]\<rparr>"
          by (simp add: w2_def w1_def sleep_def)
        then show ?thesis using that by (simp add: backendOnly_def)
      next
        case False
        then have "w2 = w\<lparr>calls := calls w + 1, trace := trace w @ [Call d]\<rparr>"
          by (simp add: w2_def w1_def)
        then show ?thesis using that by (simp add: backendOnly_def)
      qed
      have "snd (generateSceneImageWithRetry_loop ai d m a l w)
            = w\<lparr>calls := calls w + (1 + n), trace := trace w @ (evs0 @ evs)\<rparr>"
        unfolding step by (subst ih) (simp add: w2)
      then have "generateSceneImageWithRetry_loop ai d m a l w
            = (fst (generateSceneImageWithRetry_loop ai d m a l w),
               w\<lparr>calls := calls w + (1 + n), trace := trace w @ (evs0 @ evs)\<rparr>)"
        by (metis prod.collapse)
      moreover have "backendOnly d (evs0 @ evs)" by (simp add: backendOnly_append bo bo0)
      moreover have "properResult (fst (generateSceneImageWithRetry_loop ai d m a l w))"
        unfolding step by (rule pr)
      ultimately show ?thesis by blast
    qed
  qed
qed

lemma retry_run:
  obtains r n evs where
    "generateSceneImageWithRetry ai d m w = (r, w\<lparr>calls := calls w + n, trace := trace w @ evs\<rparr>)"
    "backendOnly d evs" "properResult r"
  using retry_loop_run [of ai d m 1 None w] unfolding generateSceneImageWithRetry_def by blast

lemma retry_storyboard [simp]:
  "storyboard (snd (generateSceneImageWithRetry ai d m st)) = storyboard st"
  by (rule retry_run [of ai d m st]) simp

lemma retry_storyboardRef [simp]:
  "storyboardRef (snd (generateSceneImageWithRetry ai d m st)) = storyboardRef st"
  by (rule retry_run [of ai d m st]) simp

lemma retry_error [simp]:
  "error (snd (generateSceneImageWithRetry ai d m st)) = error st"
  by (rule retry_run [of ai d m st]) simp

lemma retry_hasApiKey [simp]:
  "hasApiKey (snd (generateSceneImageWithRetry ai d m st)) = hasApiKey st"
  by (rule retry_run [of ai d m st]) simp


lemma retry_pendingRef [simp]:
  "pendingRef (snd (generateSceneImageWithRetry ai d m st)) = pendingRef st"
  by (rule retry_run [of ai d m st]) simp

text \<open>A render touches the reference only.\<close>

lemma render_calls [simp]: "calls (render st) = calls st"
  by (simp add: render_def split: option.split)

lemma render_trace [simp]: "trace (render st) = trace st"
  by (simp add: render_def split: option.split)

lemma render_storyboard [simp]: "storyboard (render st) = storyboard st"
  by (simp add: render_def split: option.split)

lemma render_error [simp]: "error (render st) = error st"
  by (simp add: render_def split: option.split)

lemma render_hasApiKey [simp]: "hasApiKey (render st) = hasApiKey st"
  by (simp add: render_def split: option.split)

lemma render_pending:
  "pendingRef st = Some b \<Longrightarrow> render st = st\<lparr>storyboardRef := Some b, pendingRef := None\<rparr>"
  by (simp add: render_def)

section \<open>The shadow reference\<close>

text \<open>
  A scene patch leaves the reference as it is; the reference catches up with the store
  at the next render.
\<close>

lemma updateSceneInState_storyboardRef:
  "storyboardRef (updateSceneInState i u st) = storyboardRef st"
  by (simp add: updateSceneInState_def Let_def split: option.split)

lemma updateSceneInState_render_sync:
  "storyboard st \<noteq> None \<Longrightarrow>
   storyboardRef (render (updateSceneInState i u st)) = storyboard (updateSceneInState i u st)"
  by (auto simp: updateSceneInState_def render_def Let_def)

lemma replaceStoryboard_sync:
  "storyboardRef (replaceStoryboard d st) = storyboard (replaceStoryboard d st)"
  by (simp add: replaceStoryboard_def)

lemma resetStoryboard_sync:
  "storyboardRef (resetStoryboard st) = storyboard (resetStoryboard st)"
  by (simp add: resetStoryboard_def)

lemma attachReferenceSheet_scenes:
  "storyboardRef st = storyboard st \<Longrightarrow>
   map_option scenes (storyboardRef (attachReferenceSheet sheet st))
     = map_option scenes (storyboard (attachReferenceSheet sheet st))"
  by (auto simp: attachReferenceSheet_def Let_def split: option.splits)



section \<open>The authorization abort\<close>

lemma updateSceneInState_error [simp]: "error (updateSceneInState i u st) = error st"
  by (simp add: updateSceneInState_def Let_def split: option.splits)

lemma updateSceneInState_hasApiKey [simp]: "hasApiKey (updateSceneInState i u st) = hasApiKey st"
  by (simp add: updateSceneInState_def Let_def split: option.splits)

lemma sceneImages_never_throws: "fst (sceneImages ai scene st) = None"
  by (simp add: sceneImages_def Let_def split_beta)

lemma sceneImages_error [simp]: "error (snd (sceneImages ai scene st)) = error st"
  by (simp add: sceneImages_def Let_def split_beta split: sum.split)

lemma sceneImages_hasApiKey [simp]: "hasApiKey (snd (sceneImages ai scene st)) = hasApiKey st"
  by (simp add: sceneImages_def Let_def split_beta split: sum.split)

lemma processScene_continues: "fst (processScene ai scene st) = Continue"
  by (simp add: processScene_def Let_def split_beta sceneImages_never_throws)

lemma processScene_error [simp]: "error (snd (processScene ai scene st)) = error st"
  by (simp add: processScene_def Let_def split_beta sceneImages_never_throws)

lemma processScene_hasApiKey [simp]: "hasApiKey (snd (processScene ai scene st)) = hasApiKey st"
  by (simp add: processScene_def Let_def split_beta sceneImages_never_throws)

lemma firstPass_continues: "fst (firstPass ai scs st) = Continue"
proof (induction scs arbitrary: st)
  case Nil
  show ?case by simp
next
  case (Cons s scs)
  obtain st' where p: "processScene ai s st = (Continue, st')"
    using processScene_continues [of ai s st] by (cases "processScene ai s st") simp
  show ?case by (simp add: p Cons.IH)
qed

lemma firstPass_error [simp]: "error (snd (firstPass ai scs st)) = error st"
proof (induction scs arbitrary: st)
  case Nil
  show ?case by simp
next
  case (Cons s scs)
  obtain st' where p: "processScene ai s st = (Continue, st')"
    using processScene_continues [of ai s st] by (cases "processScene ai s st") simp
  have "error st' = error st"
    using processScene_error [of ai s st] by (simp add: p)
  then show ?case by (simp add: p Cons.IH)
qed

lemma firstPass_hasApiKey [simp]: "hasApiKey (snd (firstPass ai scs st)) = hasApiKey st"
proof (induction scs arbitrary: st)
  case Nil
  show ?case by simp
next
  case (Cons s scs)
  obtain st' where p: "processScene ai s st = (Continue, st')"
    using processScene_continues [of ai s st] by (cases "processScene ai s st") simp
  have "hasApiKey st' = hasApiKey st"
    using processScene_hasApiKey [of ai s st] by (simp add: p)
  then show ?case by (simp add: p Cons.IH)
qed

lemma retryScene_error [simp]: "error (retryScene ai scene st) = error st"
  by (simp add: retryScene_def Let_def split_beta split: sum.split)

lemma retryScene_hasApiKey [simp]: "hasApiKey (retryScene ai scene st) = hasApiKey st"
  by (simp add: retryScene_def Let_def split_beta split: sum.split)

lemma retryScenes_error [simp]: "error (retryScenes ai scs st) = error st"
  by (induction scs arbitrary: st) simp_all

lemma retryScenes_hasApiKey [simp]: "hasApiKey (retryScenes ai scs st) = hasApiKey st"
  by (induction scs arbitrary: st) simp_all

lemma retryMissingImages_error [simp]: "error (retryMissingImages ai d st) = error st"
  by (simp add: retryMissingImages_def Let_def split: option.split)

lemma retryMissingImages_hasApiKey [simp]: "hasApiKey (retryMissingImages ai d st) = hasApiKey st"
  by (simp add: retryMissingImages_def Let_def split: option.split)

lemma processImagesQueue_runs_repair:
  "processImagesQueue ai d st = retryMissingImages ai d (snd (firstPass ai (scenes d) st))"
  using firstPass_continues [of ai "scenes d" st]
  by (cases "firstPass ai (scenes d) st") (simp add: processImagesQueue_def)

lemma processImagesQueue_error: "error (processImagesQueue ai d st) = error st"
  by (simp add: processImagesQueue_runs_repair)

lemma processImagesQueue_hasApiKey: "hasApiKey (processImagesQueue ai d st) = hasApiKey st"
  by (simp add: processImagesQueue_runs_repair)

lemma forbidden_run_events:
  "backendEvents (trace (processImagesQueue forbiddenFirst plan2 (replaceStoryboard plan2 state0)))
   = [Call ''a'', Wait 1000, Call ''a'', Wait 2000, Call ''a'', Call ''b'', Call ''c'', Call ''d'',
      Call ''a'', Call ''d'']"
  by code_simp

text \<open>
  C1. The authorization abort is not reached. On a plan of two scenes, with a backend
  whose three attempts for image A of the first scene fail with the authorization
  error \<open>403 PERMISSION_DENIED\<close>, the queue goes on: it attempts image B of the first
  scene and both images of the second scene, runs the repair pass, and leaves the error
  state empty and the key flag set. The repair pass attempts image A of the first scene
  again and, because the reference it reads does not yet hold the outcome of the last
  image of the first pass, image B of the second scene as well.
\<close>

theorem authorization_error_does_not_stop_queue:
  "imageOutcome (forbiddenFirst 0) = Inl (Error ''403 PERMISSION_DENIED'')
   \<and> isAuthorizationError (errorMessage (Error ''403 PERMISSION_DENIED''))
   \<and> error (processImagesQueue forbiddenFirst plan2 (replaceStoryboard plan2 state0)) = None
   \<and> hasApiKey (processImagesQueue forbiddenFirst plan2 (replaceStoryboard plan2 state0))
   \<and> backendEvents (trace (processImagesQueue forbiddenFirst plan2 (replaceStoryboard plan2 state0)))
       = [Call ''a'', Wait 1000, Call ''a'', Wait 2000, Call ''a'', Call ''b'', Call ''c'',
          Call ''d'', Call ''a'', Call ''d'']"
proof -
  have "imageOutcome (forbiddenFirst 0) = Inl (Error ''403 PERMISSION_DENIED'')"
    by (simp add: imageOutcome_def forbiddenFirst_def forbidden_def)
  moreover have "isAuthorizationError (errorMessage (Error ''403 PERMISSION_DENIED''))"
    by (simp add: isAuthorizationError_def errorMessage_def)
  moreover have "error (processImagesQueue forbiddenFirst plan2 (replaceStoryboard plan2 state0)) = None"
    by (simp add: processImagesQueue_error replaceStoryboard_def state0_def)
  moreover have "hasApiKey (processImagesQueue forbiddenFirst plan2 (replaceStoryboard plan2 state0))"
    by (simp add: processImagesQueue_hasApiKey replaceStoryboard_def state0_def)
  ultimately show ?thesis
    using forbidden_run_events by simp
qed


section \<open>The retry loop of a reference-sheet view\<close>

lemma viewRetryLoop_empty_answers:
  assumes "viewRetryLoop ai v r c w = Some y"
  shows "\<not> (ai = alwaysEmpty \<and> r = [] \<and> c < 3)"
proof (rule viewRetryLoop.raw_induct
    [where P = "\<lambda>ai v r c w y. \<not> (ai = alwaysEmpty \<and> r = [] \<and> c < 3)", OF _ assms])
  fix f :: "backend \<Rightarrow> string \<Rightarrow> string \<Rightarrow> nat \<Rightarrow> 'a world_scheme \<Rightarrow> (string \<times> 'a world_scheme) option"
  fix ai v r c w y
  assume IH: "\<And>ai v r c w y. f ai v r c w = Some y \<Longrightarrow> \<not> (ai = alwaysEmpty \<and> r = [] \<and> c < 3)"
  assume step: "(if c < 3
      then case generateContent ai v w of
           (Threw e, w1) \<Rightarrow>
             f ai v r (c + 1) (if c + 1 < 3 then sleep (1000 * (c + 1)) w1 else w1)
           | (Response candidates, w1) \<Rightarrow>
               if scanView candidates r \<noteq> []
               then Some (scanView candidates r, w1)
               else f ai v (scanView candidates r) c w1
      else Some (r, w)) = Some y"
  show "\<not> (ai = alwaysEmpty \<and> r = [] \<and> c < 3)"
  proof
    assume a: "ai = alwaysEmpty \<and> r = [] \<and> c < 3"
    then have "f alwaysEmpty v [] c (w\<lparr>calls := calls w + 1, trace := trace w @ [Call v]\<rparr>) = Some y"
      using step
      by (simp add: generateContent_def alwaysEmpty_def emptyAnswer_def scanView_def)
    from IH [OF this] a show False by simp
  qed
qed

lemma viewRetryLoop_never_returns: "viewRetryLoop alwaysEmpty v [] 0 w = None"
  using viewRetryLoop_empty_answers [of alwaysEmpty v "[]" 0 w] by (cases "viewRetryLoop alwaysEmpty v [] 0 w") auto

lemma viewRetryLoop_four_calls: "viewRetryLoop emptyThenImage ''front'' [] 0 state0
   = Some (''data:image/png;base64,QQ'', state0\<lparr>calls := 4, trace := [Call ''front'', Call ''front'', Call ''front'', Call ''front'']\<rparr>)"
  by (simp add: viewRetryLoop.simps generateContent_def emptyThenImage_def emptyAnswer_def imageAnswer_def scanView_def state0_def)

text \<open>
  When every call throws, each view is attempted three times, with waits of 1000 and
  2000 milliseconds after the first and the second failure, and is left empty; the call
  returns the sheet with three empty views.
\<close>

lemma viewRetryLoop_throwing:
  "viewRetryLoop alwaysThrows v [] 0 w
   = Some ([], w\<lparr>calls := calls w + 3,
                  trace := trace w @ [Call v, Wait 1000, Call v, Wait 2000, Call v]\<rparr>)"
  by (simp add: viewRetryLoop.simps generateContent_def alwaysThrows_def sleep_def)

lemma createCharacterReferenceSheet_throwing:
  "createCharacterReferenceSheet alwaysThrows w
   = Some (\<lparr>front_view = [], side_view = [], back_view = []\<rparr>,
           w\<lparr>calls := calls w + 9,
              trace := trace w @ [Call ''front'', Wait 1000, Call ''front'', Wait 2000, Call ''front'',
                                  Call ''side'', Wait 1000, Call ''side'', Wait 2000, Call ''side'',
                                  Call ''back'', Wait 1000, Call ''back'', Wait 2000, Call ''back'']\<rparr>)"
  by (simp add: createCharacterReferenceSheet_def viewRetryLoop_throwing)

text \<open>
  C5. The retry loop of a view is not bounded by three attempts. With a backend that
  answers every call without an image (and never throws), the loop of the front view
  never ends and \<open>createCharacterReferenceSheet\<close> never returns. With a backend that
  answers three calls without an image and then with an image, the front view takes four
  backend calls, with no wait between them.
\<close>

theorem createCharacterReferenceSheet_unbounded_on_empty_answers:
  "createCharacterReferenceSheet alwaysEmpty w = None
   \<and> viewRetryLoop emptyThenImage ''front'' [] 0 state0
       = Some (''data:image/png;base64,QQ'',
               state0\<lparr>calls := 4,
                      trace := [Call ''front'', Call ''front'', Call ''front'', Call ''front'']\<rparr>)"
  by (simp add: createCharacterReferenceSheet_def viewRetryLoop_never_returns
        viewRetryLoop_four_calls)


section \<open>The archive export and its gate\<close>

lemma partial_archive:
  "downloadImagesAsZip env0 partialBoard None =
     Inr [(''README.txt'', TextFile), (''storyboard-data.json'', TextFile),
          (''motion-prompts.txt'', TextFile), (''consistency-guide.txt'', TextFile),
          (''Scene_01_A.png'', ImageBlob ''u'')]"
  by code_simp

lemma missing_image_not_all_generated:
  assumes "\<exists>scene \<in> set (scenes sb). \<not> truthy (imageAUrl scene) \<or> \<not> truthy (imageBUrl scene)"
  shows "\<not> areAllImagesGenerated sb"
  using assms by (auto simp: areAllImagesGenerated_def list_all_iff)

text \<open>
  C3, as stated, fails: the archive generator does not reject a partial storyboard. For
  a storyboard whose first scene lacks image B and whose second scene lacks both images,
  \<open>downloadImagesAsZip\<close> returns an archive holding the text files and the one image
  there is.
\<close>

theorem downloadImagesAsZip_zips_partial_storyboard:
  "\<not> areAllImagesGenerated partialBoard
   \<and> downloadImagesAsZip env0 partialBoard None =
       Inr [(''README.txt'', TextFile), (''storyboard-data.json'', TextFile),
            (''motion-prompts.txt'', TextFile), (''consistency-guide.txt'', TextFile),
            (''Scene_01_A.png'', ImageBlob ''u'')]"
proof -
  have "\<not> areAllImagesGenerated partialBoard"
    by (rule missing_image_not_all_generated)
       (simp add: partialBoard_def planScene_def truthy_def)
  then show ?thesis using partial_archive by simp
qed

text \<open>
  C3, amended. The test sits in the handler of the download section: for every
  storyboard in which some scene lacks image A or image B, \<open>handleDownloadZip\<close> only sets
  the download error to the "please wait" message; it does not call the generator and
  delivers no archive. The generator itself never rejects a storyboard for being
  partial: whenever the ZIP folder can be created and the archive can be generated, it
  returns an archive.
\<close>

theorem handleDownloadZip_rejects_partial_storyboard:
  assumes "\<exists>scene \<in> set (scenes sb). \<not> truthy (imageAUrl scene) \<or> \<not> truthy (imageBUrl scene)"
  shows "handleDownloadZip env sb img ds
           = ds\<lparr>downloadError := Some ''Please wait for all images to be generated before downloading.''\<rparr>
         \<and> delivered (handleDownloadZip env sb img ds) = delivered ds
         \<and> (zipFolder env \<and> generateAsync env \<longrightarrow>
              (\<exists>files. downloadImagesAsZip env sb img = Inr files))"
proof -
  have "\<not> areAllImagesGenerated sb"
    using assms by (rule missing_image_not_all_generated)
  then have "handleDownloadZip env sb img ds
           = ds\<lparr>downloadError := Some ''Please wait for all images to be generated before downloading.''\<rparr>"
    by (simp add: handleDownloadZip_def)
  moreover have "zipFolder env \<and> generateAsync env \<longrightarrow>
              (\<exists>files. downloadImagesAsZip env sb img = Inr files)"
    by (simp add: downloadImagesAsZip_def Let_def)
  ultimately show ?thesis by simp
qed

theorem handleDownloadZip_rejects_partial_storyboard_witness:
  "(\<exists>scene \<in> set (scenes partialBoard). \<not> truthy (imageAUrl scene) \<or> \<not> truthy (imageBUrl scene))
   \<and> handleDownloadZip env0 partialBoard None download0
       = download0\<lparr>downloadError := Some ''Please wait for all images to be generated before downloading.''\<rparr>
   \<and> delivered (handleDownloadZip env0 partialBoard None download0) = []
   \<and> (\<exists>files. downloadImagesAsZip env0 partialBoard None = Inr files)"
proof -
  have h: "\<exists>scene \<in> set (scenes partialBoard). \<not> truthy (imageAUrl scene) \<or> \<not> truthy (imageBUrl scene)"
    by (simp add: partialBoard_def planScene_def truthy_def)
  show ?thesis
    using h handleDownloadZip_rejects_partial_storyboard [OF h, of env0 None download0]
    by (simp add: env0_def download0_def)
qed


section \<open>Symbolic execution of one scene\<close>

lemma updateSceneInState_run:
  assumes "storyboard st = Some sb"
  shows "updateSceneInState i u st
         = st\<lparr>trace := trace st @ [Store (Some (patchBoard i u sb))],
               storyboard := Some (patchBoard i u sb),
               pendingRef := Some (patchBoard i u sb)\<rparr>"
  using assms by (simp add: updateSceneInState_def patchBoard_def patchScenes_def Let_def)

lemma outcomePatchA_case:
  "(case r of
      Inr imageA \<Rightarrow> updateSceneInState i (noPatch\<lparr>p_imageAUrl := Some imageA, p_imageAFailed := Some False\<rparr>) st
    | Inl imgError \<Rightarrow> updateSceneInState i (noPatch\<lparr>p_imageAFailed := Some True\<rparr>) st)
   = updateSceneInState i (outcomePatchA r) st"
  by (simp add: outcomePatchA_def split: sum.split)

lemma outcomePatchB_case:
  "(case r of
      Inr imageB \<Rightarrow> updateSceneInState i (noPatch\<lparr>p_imageBUrl := Some imageB, p_imageBFailed := Some False\<rparr>) st
    | Inl imgError \<Rightarrow> updateSceneInState i (noPatch\<lparr>p_imageBFailed := Some True\<rparr>) st)
   = updateSceneInState i (outcomePatchB r) st"
  by (simp add: outcomePatchB_def split: sum.split)

lemma processScene_run:
  assumes sb: "storyboard st = Some sb"
  obtains rA rB evsA evsB n b1 b2 b3 b4 b5 b6 where
    "properResult rA" "properResult rB"
    "backendOnly (imageADescription scene) evsA" "backendOnly (imageBDescription scene) evsB"
    "[b1, b2, b3, b4, b5, b6]
       = boards (scene_id scene)
           [noPatch\<lparr>p_isGeneratingImage := Some True\<rparr>, noPatch\<lparr>p_retryAttempt := Some 1\<rparr>,
            outcomePatchA rA, noPatch\<lparr>p_retryAttempt := Some 2\<rparr>, outcomePatchB rB,
            noPatch\<lparr>p_isGeneratingImage := Some False\<rparr>] sb"
    "processScene ai scene st
       = (Continue,
          st\<lparr>calls := calls st + n,
              trace := trace st @ [Store (Some b1), Store (Some b2)] @ evsA
                         @ [Store (Some b3), Store (Some b4)] @ evsB
                         @ [Store (Some b5), Store (Some b6)],
              storyboard := Some b6, storyboardRef := Some b4, pendingRef := Some b6\<rparr>)"
proof -
  let ?i = "scene_id scene"
  define b1 where "b1 = patchBoard ?i (noPatch\<lparr>p_isGeneratingImage := Some True\<rparr>) sb"
  define b2 where "b2 = patchBoard ?i (noPatch\<lparr>p_retryAttempt := Some 1\<rparr>) b1"
  define st1 where "st1 = updateSceneInState ?i (noPatch\<lparr>p_isGeneratingImage := Some True\<rparr>) st"
  define st2 where "st2 = render (updateSceneInState ?i (noPatch\<lparr>p_retryAttempt := Some 1\<rparr>) st1)"
  have st1: "st1 = st\<lparr>trace := trace st @ [Store (Some b1)], storyboard := Some b1, pendingRef := Some b1\<rparr>"
    unfolding st1_def b1_def by (rule updateSceneInState_run [OF sb])
  have st2': "updateSceneInState ?i (noPatch\<lparr>p_retryAttempt := Some 1\<rparr>) st1
                = st\<lparr>trace := trace st @ [Store (Some b1), Store (Some b2)],
                      storyboard := Some b2, pendingRef := Some b2\<rparr>"
    unfolding b2_def by (subst updateSceneInState_run [of _ b1]) (simp_all add: st1)
  have st2: "st2 = st\<lparr>trace := trace st @ [Store (Some b1), Store (Some b2)],
                        storyboard := Some b2, storyboardRef := Some b2, pendingRef := None\<rparr>"
    unfolding st2_def st2' by (simp add: render_def)
  obtain rA nA evsA where
    runA: "generateSceneImageWithRetry ai (imageADescription scene) 3 st2
             = (rA, st2\<lparr>calls := calls st2 + nA, trace := trace st2 @ evsA\<rparr>)"
    and boA: "backendOnly (imageADescription scene) evsA" and prA: "properResult rA"
    by (rule retry_run)
  define b3 where "b3 = patchBoard ?i (outcomePatchA rA) b2"
  define b4 where "b4 = patchBoard ?i (noPatch\<lparr>p_retryAttempt := Some 2\<rparr>) b3"
  define st3 where "st3 = updateSceneInState ?i (outcomePatchA rA) (st2\<lparr>calls := calls st2 + nA, trace := trace st2 @ evsA\<rparr>)"
  define st4 where "st4 = render (updateSceneInState ?i (noPatch\<lparr>p_retryAttempt := Some 2\<rparr>) st3)"
  have st3: "st3 = st\<lparr>calls := calls st + nA,
                        trace := trace st @ [Store (Some b1), Store (Some b2)] @ evsA @ [Store (Some b3)],
                        storyboard := Some b3, storyboardRef := Some b2, pendingRef := Some b3\<rparr>"
    unfolding st3_def b3_def by (subst updateSceneInState_run [of _ b2]) (simp_all add: st2)
  have st4': "updateSceneInState ?i (noPatch\<lparr>p_retryAttempt := Some 2\<rparr>) st3
                = st\<lparr>calls := calls st + nA,
                      trace := trace st @ [Store (Some b1), Store (Some b2)] @ evsA
                                 @ [Store (Some b3), Store (Some b4)],
                      storyboard := Some b4, storyboardRef := Some b2, pendingRef := Some b4\<rparr>"
    unfolding b4_def by (subst updateSceneInState_run [of _ b3]) (simp_all add: st3)
  have st4: "st4 = st\<lparr>calls := calls st + nA,
                        trace := trace st @ [Store (Some b1), Store (Some b2)] @ evsA
                                   @ [Store (Some b3), Store (Some b4)],
                        storyboard := Some b4, storyboardRef := Some b4, pendingRef := None\<rparr>"
    unfolding st4_def st4' by (simp add: render_def)
  obtain rB nB evsB where
    runB: "generateSceneImageWithRetry ai (imageBDescription scene) 3 st4
             = (rB, st4\<lparr>calls := calls st4 + nB, trace := trace st4 @ evsB\<rparr>)"
    and boB: "backendOnly (imageBDescription scene) evsB" and prB: "properResult rB"
    by (rule retry_run)
  define b5 where "b5 = patchBoard ?i (outcomePatchB rB) b4"
  define b6 where "b6 = patchBoard ?i (noPatch\<lparr>p_isGeneratingImage := Some False\<rparr>) b5"
  define st5 where "st5 = updateSceneInState ?i (outcomePatchB rB) (st4\<lparr>calls := calls st4 + nB, trace := trace st4 @ evsB\<rparr>)"
  define st6 where "st6 = updateSceneInState ?i (noPatch\<lparr>p_isGeneratingImage := Some False\<rparr>) st5"
  have st5: "st5 = st\<lparr>calls := calls st + (nA + nB),
                        trace := trace st @ [Store (Some b1), Store (Some b2)] @ evsA
                                   @ [Store (Some b3), Store (Some b4)] @ evsB @ [Store (Some b5)],
                        storyboard := Some b5, storyboardRef := Some b4, pendingRef := Some b5\<rparr>"
    unfolding st5_def b5_def by (subst updateSceneInState_run [of _ b4]) (simp_all add: st4)
  have st6: "st6 = st\<lparr>calls := calls st + (nA + nB),
                        trace := trace st @ [Store (Some b1), Store (Some b2)] @ evsA
                                   @ [Store (Some b3), Store (Some b4)] @ evsB
                                   @ [Store (Some b5), Store (Some b6)],
                        storyboard := Some b6, storyboardRef := Some b4, pendingRef := Some b6\<rparr>"
    unfolding st6_def b6_def by (subst updateSceneInState_run [of _ b5]) (simp_all add: st5)
  have images: "sceneImages ai scene st1 = (None, st5)"
    unfolding sceneImages_def Let_def st2_def [symmetric] runA prod.case outcomePatchA_case
      st3_def [symmetric] st4_def [symmetric] runB outcomePatchB_case st5_def [symmetric]
    by (rule refl)
  have run: "processScene ai scene st = (Continue, st6)"
    unfolding processScene_def Let_def st1_def [symmetric] images prod.case st6_def [symmetric]
    by simp
  have bs: "[b1, b2, b3, b4, b5, b6]
       = boards (scene_id scene)
           [noPatch\<lparr>p_isGeneratingImage := Some True\<rparr>, noPatch\<lparr>p_retryAttempt := Some 1\<rparr>,
            outcomePatchA rA, noPatch\<lparr>p_retryAttempt := Some 2\<rparr>, outcomePatchB rB,
            noPatch\<lparr>p_isGeneratingImage := Some False\<rparr>] sb"
    by (simp add: b1_def b2_def b3_def b4_def b5_def b6_def)
  show thesis
    by (rule that [OF prA prB boA boB bs]) (simp add: run st6)
qed

lemma retry_step_run:
  assumes sb: "storyboard s = Some b"
  obtains r n evs where
    "properResult r" "backendOnly d evs"
    "(case generateSceneImageWithRetry ai d m (render (updateSceneInState i u s)) of
                    (res, s2) \<Rightarrow> updateSceneInState i (f res) s2)
     = s\<lparr>calls := calls s + n,
          trace := trace s @ Store (Some (patchBoard i u b)) # evs
                     @ [Store (Some (patchBoard i (f r) (patchBoard i u b)))],
          storyboard := Some (patchBoard i (f r) (patchBoard i u b)),
          storyboardRef := Some (patchBoard i u b),
          pendingRef := Some (patchBoard i (f r) (patchBoard i u b))\<rparr>"
proof -
  define s1 where "s1 = render (updateSceneInState i u s)"
  have s1: "s1 = s\<lparr>trace := trace s @ [Store (Some (patchBoard i u b))],
                     storyboard := Some (patchBoard i u b),
                     storyboardRef := Some (patchBoard i u b),
                     pendingRef := None\<rparr>"
    unfolding s1_def by (simp add: updateSceneInState_run [OF sb] render_def)
  obtain r n evs where
    run: "generateSceneImageWithRetry ai d m s1
             = (r, s1\<lparr>calls := calls s1 + n, trace := trace s1 @ evs\<rparr>)"
    and bo: "backendOnly d evs" and pr: "properResult r"
    by (rule retry_run)
  have "(case generateSceneImageWithRetry ai d m (render (updateSceneInState i u s)) of
                    (res, s2) \<Rightarrow> updateSceneInState i (f res) s2)
     = updateSceneInState i (f r) (s1\<lparr>calls := calls s1 + n, trace := trace s1 @ evs\<rparr>)"
    unfolding s1_def [symmetric] run prod.case by (rule refl)
  also have "\<dots> = s\<lparr>calls := calls s + n,
          trace := trace s @ Store (Some (patchBoard i u b)) # evs
                     @ [Store (Some (patchBoard i (f r) (patchBoard i u b)))],
          storyboard := Some (patchBoard i (f r) (patchBoard i u b)),
          storyboardRef := Some (patchBoard i u b),
          pendingRef := Some (patchBoard i (f r) (patchBoard i u b))\<rparr>"
    by (subst updateSceneInState_run [of _ "patchBoard i u b"]) (simp_all add: s1)
  finally show thesis
    using that [OF pr bo] by blast
qed

lemma retryScene_run:
  assumes sb: "storyboard st = Some sb"
  obtains rA rB n evs rf where
    "properResult rA" "properResult rB"
    "stores evs = map Some (boards (scene_id scene) (repairPatches scene rA rB) sb)"
    "retryScene ai scene st
       = st\<lparr>calls := calls st + n, trace := trace st @ evs,
             storyboard := Some (last (boards (scene_id scene) (repairPatches scene rA rB) sb)),
             storyboardRef := rf,
             pendingRef := Some (last (boards (scene_id scene) (repairPatches scene rA rB) sb))\<rparr>"
proof -
  let ?i = "scene_id scene"
  let ?T = "noPatch\<lparr>p_isGeneratingImage := Some True\<rparr>"
  let ?F = "noPatch\<lparr>p_isGeneratingImage := Some False\<rparr>"
  define b1 where "b1 = patchBoard ?i ?T sb"
  define st1 where "st1 = updateSceneInState ?i ?T st"
  have st1: "st1 = st\<lparr>calls := calls st + 0, trace := trace st @ [Store (Some b1)],
                       storyboard := Some b1, pendingRef := Some b1\<rparr>"
    unfolding st1_def b1_def by (simp add: updateSceneInState_run [OF sb])
  \<comment> \<open>image A\<close>
  obtain rA nA evsA bA rfA where prA: "properResult rA"
    and bA: "bA = (if \<not> truthy (imageAUrl scene)
                   then patchBoard ?i (outcomePatchA rA) (patchBoard ?i (noPatch\<lparr>p_retryAttempt := Some 3\<rparr>) b1)
                   else b1)"
    and stA: "(if \<not> truthy (imageAUrl scene) then
                 (case generateSceneImageWithRetry ai (imageADescription scene) 2 (render (updateSceneInState ?i (noPatch\<lparr>p_retryAttempt := Some 3\<rparr>) st1)) of
                    (resA, s2) \<Rightarrow> updateSceneInState ?i (outcomePatchA resA) s2)
               else st1)
              = st\<lparr>calls := calls st + nA, trace := trace st @ Store (Some b1) # evsA,
                    storyboard := Some bA, storyboardRef := rfA, pendingRef := Some bA\<rparr>"
    and evA: "stores evsA = (if \<not> truthy (imageAUrl scene)
                   then [Some (patchBoard ?i (noPatch\<lparr>p_retryAttempt := Some 3\<rparr>) b1), Some bA] else [])"
  proof (cases "truthy (imageAUrl scene)")
    case True
    show thesis
      by (rule that [where rA = "Inl (Error [])" and nA = 0 and evsA = "[]" and bA = b1
            and rfA = "storyboardRef st"]) (simp_all add: True st1 properResult_def)
  next
    case False
    have s: "storyboard st1 = Some b1" by (simp add: st1)
    obtain r n evs where pr: "properResult r" and bo: "backendOnly (imageADescription scene) evs"
      and run: "(case generateSceneImageWithRetry ai (imageADescription scene) 2 (render (updateSceneInState ?i (noPatch\<lparr>p_retryAttempt := Some 3\<rparr>) st1)) of
                    (res, s2) \<Rightarrow> updateSceneInState ?i (outcomePatchA res) s2)
     = st1\<lparr>calls := calls st1 + n,
          trace := trace st1 @ Store (Some (patchBoard ?i (noPatch\<lparr>p_retryAttempt := Some 3\<rparr>) b1)) # evs
                     @ [Store (Some (patchBoard ?i (outcomePatchA r) (patchBoard ?i (noPatch\<lparr>p_retryAttempt := Some 3\<rparr>) b1)))],
          storyboard := Some (patchBoard ?i (outcomePatchA r) (patchBoard ?i (noPatch\<lparr>p_retryAttempt := Some 3\<rparr>) b1)),
          storyboardRef := Some (patchBoard ?i (noPatch\<lparr>p_retryAttempt := Some 3\<rparr>) b1), pendingRef := Some (patchBoard ?i (outcomePatchA r) (patchBoard ?i (noPatch\<lparr>p_retryAttempt := Some 3\<rparr>) b1))\<rparr>"
      by (rule retry_step_run [OF s])
    have "(if \<not> truthy (imageAUrl scene) then
                 (case generateSceneImageWithRetry ai (imageADescription scene) 2 (render (updateSceneInState ?i (noPatch\<lparr>p_retryAttempt := Some 3\<rparr>) st1)) of
                    (resA, s2) \<Rightarrow> updateSceneInState ?i (outcomePatchA resA) s2)
               else st1)
            = (case generateSceneImageWithRetry ai (imageADescription scene) 2 (render (updateSceneInState ?i (noPatch\<lparr>p_retryAttempt := Some 3\<rparr>) st1)) of
                    (res, s2) \<Rightarrow> updateSceneInState ?i (outcomePatchA res) s2)"
      by (rule if_P) (rule False)
    also note run
    also have "st1\<lparr>calls := calls st1 + n,
          trace := trace st1 @ Store (Some (patchBoard ?i (noPatch\<lparr>p_retryAttempt := Some 3\<rparr>) b1)) # evs
                     @ [Store (Some (patchBoard ?i (outcomePatchA r) (patchBoard ?i (noPatch\<lparr>p_retryAttempt := Some 3\<rparr>) b1)))],
          storyboard := Some (patchBoard ?i (outcomePatchA r) (patchBoard ?i (noPatch\<lparr>p_retryAttempt := Some 3\<rparr>) b1)),
          storyboardRef := Some (patchBoard ?i (noPatch\<lparr>p_retryAttempt := Some 3\<rparr>) b1), pendingRef := Some (patchBoard ?i (outcomePatchA r) (patchBoard ?i (noPatch\<lparr>p_retryAttempt := Some 3\<rparr>) b1))\<rparr>
        = st\<lparr>calls := calls st + n, trace := trace st @ Store (Some b1) # Store (Some (patchBoard ?i (noPatch\<lparr>p_retryAttempt := Some 3\<rparr>) b1)) # evs @ [Store (Some (patchBoard ?i (outcomePatchA r) (patchBoard ?i (noPatch\<lparr>p_retryAttempt := Some 3\<rparr>) b1)))],
                    storyboard := Some (patchBoard ?i (outcomePatchA r) (patchBoard ?i (noPatch\<lparr>p_retryAttempt := Some 3\<rparr>) b1)), storyboardRef := Some (patchBoard ?i (noPatch\<lparr>p_retryAttempt := Some 3\<rparr>) b1), pendingRef := Some (patchBoard ?i (outcomePatchA r) (patchBoard ?i (noPatch\<lparr>p_retryAttempt := Some 3\<rparr>) b1))\<rparr>"
      by (simp add: st1)
    finally have eq: "(if \<not> truthy (imageAUrl scene) then
                 (case generateSceneImageWithRetry ai (imageADescription scene) 2 (render (updateSceneInState ?i (noPatch\<lparr>p_retryAttempt := Some 3\<rparr>) st1)) of
                    (resA, s2) \<Rightarrow> updateSceneInState ?i (outcomePatchA resA) s2)
               else st1)
            = st\<lparr>calls := calls st + n, trace := trace st @ Store (Some b1) # Store (Some (patchBoard ?i (noPatch\<lparr>p_retryAttempt := Some 3\<rparr>) b1)) # evs @ [Store (Some (patchBoard ?i (outcomePatchA r) (patchBoard ?i (noPatch\<lparr>p_retryAttempt := Some 3\<rparr>) b1)))],
                    storyboard := Some (patchBoard ?i (outcomePatchA r) (patchBoard ?i (noPatch\<lparr>p_retryAttempt := Some 3\<rparr>) b1)), storyboardRef := Some (patchBoard ?i (noPatch\<lparr>p_retryAttempt := Some 3\<rparr>) b1), pendingRef := Some (patchBoard ?i (outcomePatchA r) (patchBoard ?i (noPatch\<lparr>p_retryAttempt := Some 3\<rparr>) b1))\<rparr>" .
    have b: "patchBoard ?i (outcomePatchA r) (patchBoard ?i (noPatch\<lparr>p_retryAttempt := Some 3\<rparr>) b1) = (if \<not> truthy (imageAUrl scene) then patchBoard ?i (outcomePatchA r) (patchBoard ?i (noPatch\<lparr>p_retryAttempt := Some 3\<rparr>) b1) else b1)"
      using False by simp
    have ev: "stores (Store (Some (patchBoard ?i (noPatch\<lparr>p_retryAttempt := Some 3\<rparr>) b1)) # evs @ [Store (Some (patchBoard ?i (outcomePatchA r) (patchBoard ?i (noPatch\<lparr>p_retryAttempt := Some 3\<rparr>) b1)))])
              = (if \<not> truthy (imageAUrl scene)
                   then [Some (patchBoard ?i (noPatch\<lparr>p_retryAttempt := Some 3\<rparr>) b1), Some (patchBoard ?i (outcomePatchA r) (patchBoard ?i (noPatch\<lparr>p_retryAttempt := Some 3\<rparr>) b1))] else [])"
      using False by (simp add: stores_append backendOnly_stores [OF bo])
    show thesis
      using that [OF pr b _ ev] eq by simp
  qed
  define st2 where "st2 = st\<lparr>calls := calls st + nA, trace := trace st @ Store (Some b1) # evsA,
                    storyboard := Some bA, storyboardRef := rfA, pendingRef := Some bA\<rparr>"
  \<comment> \<open>image B\<close>
  obtain rB nB evsB bB rfB where prB: "properResult rB"
    and bB: "bB = (if \<not> truthy (imageBUrl scene)
                   then patchBoard ?i (outcomePatchB rB) (patchBoard ?i (noPatch\<lparr>p_retryAttempt := Some 4\<rparr>) bA)
                   else bA)"
    and stB: "(if \<not> truthy (imageBUrl scene) then
                 (case generateSceneImageWithRetry ai (imageBDescription scene) 2 (render (updateSceneInState ?i (noPatch\<lparr>p_retryAttempt := Some 4\<rparr>) st2)) of
                    (resB, s2) \<Rightarrow> updateSceneInState ?i (outcomePatchB resB) s2)
               else st2)
              = st\<lparr>calls := calls st + nB, trace := trace st @ Store (Some b1) # evsA @ evsB,
                    storyboard := Some bB, storyboardRef := rfB, pendingRef := Some bB\<rparr>"
    and evB: "stores evsB = (if \<not> truthy (imageBUrl scene)
                   then [Some (patchBoard ?i (noPatch\<lparr>p_retryAttempt := Some 4\<rparr>) bA), Some bB] else [])"
  proof (cases "truthy (imageBUrl scene)")
    case True
    show thesis
      by (rule that [where rB = "Inl (Error [])" and nB = nA and evsB = "[]" and bB = bA
            and rfB = rfA]) (simp_all add: True st2_def properResult_def)
  next
    case False
    have s: "storyboard st2 = Some bA" by (simp add: st2_def)
    obtain r n evs where pr: "properResult r" and bo: "backendOnly (imageBDescription scene) evs"
      and run: "(case generateSceneImageWithRetry ai (imageBDescription scene) 2 (render (updateSceneInState ?i (noPatch\<lparr>p_retryAttempt := Some 4\<rparr>) st2)) of
                    (res, s2) \<Rightarrow> updateSceneInState ?i (outcomePatchB res) s2)
     = st2\<lparr>calls := calls st2 + n,
          trace := trace st2 @ Store (Some (patchBoard ?i (noPatch\<lparr>p_retryAttempt := Some 4\<rparr>) bA)) # evs
                     @ [Store (Some (patchBoard ?i (outcomePatchB r) (patchBoard ?i (noPatch\<lparr>p_retryAttempt := Some 4\<rparr>) bA)))],
          storyboard := Some (patchBoard ?i (outcomePatchB r) (patchBoard ?i (noPatch\<lparr>p_retryAttempt := Some 4\<rparr>) bA)),
          storyboardRef := Some (patchBoard ?i (noPatch\<lparr>p_retryAttempt := Some 4\<rparr>) bA), pendingRef := Some (patchBoard ?i (outcomePatchB r) (patchBoard ?i (noPatch\<lparr>p_retryAttempt := Some 4\<rparr>) bA))\<rparr>"
      by (rule retry_step_run [OF s])
    have "(if \<not> truthy (imageBUrl scene) then
                 (case generateSceneImageWithRetry ai (imageBDescription scene) 2 (render (updateSceneInState ?i (noPatch\<lparr>p_retryAttempt := Some 4\<rparr>) st2)) of
                    (resB, s2) \<Rightarrow> updateSceneInState ?i (outcomePatchB resB) s2)
               else st2)
            = (case generateSceneImageWithRetry ai (imageBDescription scene) 2 (render (updateSceneInState ?i (noPatch\<lparr>p_retryAttempt := Some 4\<rparr>) st2)) of
                    (res, s2) \<Rightarrow> updateSceneInState ?i (outcomePatchB res) s2)"
      by (rule if_P) (rule False)
    also note run
    also have "st2\<lparr>calls := calls st2 + n,
          trace := trace st2 @ Store (Some (patchBoard ?i (noPatch\<lparr>p_retryAttempt := Some 4\<rparr>) bA)) # evs
                     @ [Store (Some (patchBoard ?i (outcomePatchB r) (patchBoard ?i (noPatch\<lparr>p_retryAttempt := Some 4\<rparr>) bA)))],
          storyboard := Some (patchBoard ?i (outcomePatchB r) (patchBoard ?i (noPatch\<lparr>p_retryAttempt := Some 4\<rparr>) bA)),
          storyboardRef := Some (patchBoard ?i (noPatch\<lparr>p_retryAttempt := Some 4\<rparr>) bA), pendingRef := Some (patchBoard ?i (outcomePatchB r) (patchBoard ?i (noPatch\<lparr>p_retryAttempt := Some 4\<rparr>) bA))\<rparr>
        = st\<lparr>calls := calls st + (nA + n), trace := trace st @ Store (Some b1) # evsA @ Store (Some (patchBoard ?i (noPatch\<lparr>p_retryAttempt := Some 4\<rparr>) bA)) # evs @ [Store (Some (patchBoard ?i (outcomePatchB r) (patchBoard ?i (noPatch\<lparr>p_retryAttempt := Some 4\<rparr>) bA)))],
                    storyboard := Some (patchBoard ?i (outcomePatchB r) (patchBoard ?i (noPatch\<lparr>p_retryAttempt := Some 4\<rparr>) bA)), storyboardRef := Some (patchBoard ?i (noPatch\<lparr>p_retryAttempt := Some 4\<rparr>) bA), pendingRef := Some (patchBoard ?i (outcomePatchB r) (patchBoard ?i (noPatch\<lparr>p_retryAttempt := Some 4\<rparr>) bA))\<rparr>"
      by (simp add: st2_def)
    finally have eq: "(if \<not> truthy (imageBUrl scene) then
                 (case generateSceneImageWithRetry ai (imageBDescription scene) 2 (render (updateSceneInState ?i (noPatch\<lparr>p_retryAttempt := Some 4\<rparr>) st2)) of
                    (resB, s2) \<Rightarrow> updateSceneInState ?i (outcomePatchB resB) s2)
               else st2)
            = st\<lparr>calls := calls st + (nA + n), trace := trace st @ Store (Some b1) # evsA @ Store (Some (patchBoard ?i (noPatch\<lparr>p_retryAttempt := Some 4\<rparr>) bA)) # evs @ [Store (Some (patchBoard ?i (outcomePatchB r) (patchBoard ?i (noPatch\<lparr>p_retryAttempt := Some 4\<rparr>) bA)))],
                    storyboard := Some (patchBoard ?i (outcomePatchB r) (patchBoard ?i (noPatch\<lparr>p_retryAttempt := Some 4\<rparr>) bA)), storyboardRef := Some (patchBoard ?i (noPatch\<lparr>p_retryAttempt := Some 4\<rparr>) bA), pendingRef := Some (patchBoard ?i (outcomePatchB r) (patchBoard ?i (noPatch\<lparr>p_retryAttempt := Some 4\<rparr>) bA))\<rparr>" .
    have b: "patchBoard ?i (outcomePatchB r) (patchBoard ?i (noPatch\<lparr>p_retryAttempt := Some 4\<rparr>) bA) = (if \<not> truthy (imageBUrl scene) then patchBoard ?i (outcomePatchB r) (patchBoard ?i (noPatch\<lparr>p_retryAttempt := Some 4\<rparr>) bA) else bA)"
      using False by simp
    have ev: "stores (Store (Some (patchBoard ?i (noPatch\<lparr>p_retryAttempt := Some 4\<rparr>) bA)) # evs @ [Store (Some (patchBoard ?i (outcomePatchB r) (patchBoard ?i (noPatch\<lparr>p_retryAttempt := Some 4\<rparr>) bA)))])
              = (if \<not> truthy (imageBUrl scene)
                   then [Some (patchBoard ?i (noPatch\<lparr>p_retryAttempt := Some 4\<rparr>) bA), Some (patchBoard ?i (outcomePatchB r) (patchBoard ?i (noPatch\<lparr>p_retryAttempt := Some 4\<rparr>) bA))] else [])"
      using False by (simp add: stores_append backendOnly_stores [OF bo])
    show thesis
      using that [OF pr b _ ev] eq by simp
  qed
  define b3 where "b3 = patchBoard ?i ?F bB"
  have run: "retryScene ai scene st
       = st\<lparr>calls := calls st + nB, trace := trace st @ (Store (Some b1) # evsA @ evsB @ [Store (Some b3)]),
             storyboard := Some b3, storyboardRef := rfB, pendingRef := Some b3\<rparr>"
    unfolding retryScene_def Let_def outcomePatchA_case outcomePatchB_case
      st1_def [symmetric] stA st2_def [symmetric] stB
    by (subst updateSceneInState_run [of _ bB]) (simp_all add: b3_def)
  have bs: "boards ?i (repairPatches scene rA rB) sb
            = b1 # (if \<not> truthy (imageAUrl scene)
                    then [patchBoard ?i (noPatch\<lparr>p_retryAttempt := Some 3\<rparr>) b1, bA] else [])
                 @ (if \<not> truthy (imageBUrl scene)
                    then [patchBoard ?i (noPatch\<lparr>p_retryAttempt := Some 4\<rparr>) bA, bB] else [])
                 @ [b3]"
    by (simp add: repairPatches_def b1_def bA bB b3_def)
  have "stores (Store (Some b1) # evsA @ evsB @ [Store (Some b3)])
        = map Some (boards ?i (repairPatches scene rA rB) sb)"
    by (simp add: bs stores_append evA evB)
  moreover have "last (boards ?i (repairPatches scene rA rB) sb) = b3"
    by (simp add: bs)
  ultimately show thesis
    using that [OF prA prB, where evs = "Store (Some b1) # evsA @ evsB @ [Store (Some b3)]" and n = nB
        and rf = rfB] run by simp
qed


section \<open>The store values produced by a pass\<close>

lemma finalBoard_Nil [simp]: "finalBoard i [] b = b"
  by (simp add: finalBoard_def)

lemma finalBoard_Cons [simp]: "finalBoard i (u # us) b = finalBoard i us (patchBoard i u b)"
  by (simp add: finalBoard_def)

lemma boards_append: "boards i (us @ vs) b = boards i us b @ boards i vs (finalBoard i us b)"
  by (induction us arbitrary: b) simp_all

lemma boards_Nil_iff [simp]: "boards i us b = [] \<longleftrightarrow> us = []"
  by (cases us) simp_all

lemma last_boards: "us \<noteq> [] \<Longrightarrow> last (boards i us b) = finalBoard i us b"
  by (simp add: finalBoard_def)

lemma firstPassPatches_nonempty [simp]: "firstPassPatches rA rB \<noteq> []"
  by (simp add: firstPassPatches_def)

lemma repairPatches_nonempty [simp]: "repairPatches scene rA rB \<noteq> []"
  by (simp add: repairPatches_def)

lemma firstPass_boards:
  assumes "storyboard st = Some sb"
  shows "\<exists>new bs. passBoards (\<lambda>scene. firstPassPatches) sb scs bs
           \<and> fst (firstPass ai scs st) = Continue
           \<and> trace (snd (firstPass ai scs st)) = trace st @ new
           \<and> stores new = map Some bs
           \<and> storyboard (snd (firstPass ai scs st)) = Some (last (sb # bs))"
  using assms
proof (induction scs arbitrary: st sb)
  case Nil
  have "passBoards (\<lambda>scene. firstPassPatches) sb [] []" by (rule passNil)
  then show ?case using Nil by (intro exI [of _ "[]"]) simp
next
  case (Cons scene rest)
  let ?i = "scene_id scene"
  obtain rA rB evsA evsB n b1 b2 b3 b4 b5 b6 where
    prA: "properResult rA" and prB: "properResult rB"
    and bs: "[b1, b2, b3, b4, b5, b6]
       = boards ?i
           [noPatch\<lparr>p_isGeneratingImage := Some True\<rparr>, noPatch\<lparr>p_retryAttempt := Some 1\<rparr>,
            outcomePatchA rA, noPatch\<lparr>p_retryAttempt := Some 2\<rparr>, outcomePatchB rB,
            noPatch\<lparr>p_isGeneratingImage := Some False\<rparr>] sb"
    and boA: "backendOnly (imageADescription scene) evsA"
    and boB: "backendOnly (imageBDescription scene) evsB"
    and run: "processScene ai scene st
       = (Continue,
          st\<lparr>calls := calls st + n,
              trace := trace st @ [Store (Some b1), Store (Some b2)] @ evsA
                         @ [Store (Some b3), Store (Some b4)] @ evsB
                         @ [Store (Some b5), Store (Some b6)],
              storyboard := Some b6, storyboardRef := Some b4, pendingRef := Some b6\<rparr>)"
    by (rule processScene_run [OF Cons.prems])
  define st' where "st' = st\<lparr>calls := calls st + n,
              trace := trace st @ [Store (Some b1), Store (Some b2)] @ evsA
                         @ [Store (Some b3), Store (Some b4)] @ evsB
                         @ [Store (Some b5), Store (Some b6)],
              storyboard := Some b6, storyboardRef := Some b4, pendingRef := Some b6\<rparr>"
  define new1 where "new1 = [Store (Some b1), Store (Some b2)] @ evsA
                         @ [Store (Some b3), Store (Some b4)] @ evsB
                         @ [Store (Some b5), Store (Some b6)]"
  have bs': "boards ?i (firstPassPatches rA rB) sb = [b1, b2, b3, b4, b5, b6]"
    using bs by (simp add: firstPassPatches_def)
  have fin: "finalBoard ?i (firstPassPatches rA rB) sb = b6"
    using last_boards [of "firstPassPatches rA rB" ?i sb] by (simp add: bs')
  have st1: "storyboard st' = Some b6" by (simp add: st'_def)
  have new1: "stores new1 = map Some (boards ?i (firstPassPatches rA rB) sb)"
    by (simp add: new1_def bs' stores_append backendOnly_stores [OF boA] backendOnly_stores [OF boB])
  from Cons.IH [OF st1] obtain new bs where
    pb: "passBoards (\<lambda>scene. firstPassPatches) b6 rest bs"
    and c: "fst (firstPass ai rest st') = Continue"
    and tr: "trace (snd (firstPass ai rest st')) = trace st' @ new"
    and sn: "stores new = map Some bs"
    and sb': "storyboard (snd (firstPass ai rest st')) = Some (last (b6 # bs))"
    by blast
  have step: "firstPass ai (scene # rest) st = firstPass ai rest st'"
    by (simp add: run st'_def)
  have pb': "passBoards (\<lambda>scene. firstPassPatches) sb (scene # rest)
               (boards ?i (firstPassPatches rA rB) sb @ bs)"
    by (rule passCons [OF prA prB]) (simp add: fin pb)
  have tr': "trace (snd (firstPass ai (scene # rest) st)) = trace st @ (new1 @ new)"
    unfolding step tr by (simp add: st'_def new1_def)
  have sn': "stores (new1 @ new) = map Some (boards ?i (firstPassPatches rA rB) sb @ bs)"
    by (simp add: stores_append new1 sn)
  have last': "last (sb # boards ?i (firstPassPatches rA rB) sb @ bs) = last (b6 # bs)"
    by (simp add: bs')
  have cF: "fst (firstPass ai (scene # rest) st) = Continue"
    unfolding step by (rule c)
  have sbF: "storyboard (snd (firstPass ai (scene # rest) st))
             = Some (last (sb # boards ?i (firstPassPatches rA rB) sb @ bs))"
    unfolding step sb' last' by (rule refl)
  show ?case
    using pb' cF tr' sn' sbF by blast
qed

lemma retryScenes_boards:
  assumes "storyboard st = Some sb"
  shows "\<exists>new bs. passBoards repairPatches sb scs bs
           \<and> trace (retryScenes ai scs st) = trace st @ new
           \<and> stores new = map Some bs
           \<and> storyboard (retryScenes ai scs st) = Some (last (sb # bs))"
  using assms
proof (induction scs arbitrary: st sb)
  case Nil
  have "passBoards repairPatches sb [] []" by (rule passNil)
  then show ?case using Nil by (intro exI [of _ "[]"]) simp
next
  case (Cons scene rest)
  let ?i = "scene_id scene"
  obtain rA rB n evs rf where
    prA: "properResult rA" and prB: "properResult rB"
    and ev: "stores evs = map Some (boards ?i (repairPatches scene rA rB) sb)"
    and run: "retryScene ai scene st
       = st\<lparr>calls := calls st + n, trace := trace st @ evs,
             storyboard := Some (last (boards ?i (repairPatches scene rA rB) sb)),
             storyboardRef := rf,
             pendingRef := Some (last (boards ?i (repairPatches scene rA rB) sb))\<rparr>"
    by (rule retryScene_run [OF Cons.prems])
  let ?b = "finalBoard ?i (repairPatches scene rA rB) sb"
  have fin: "last (boards ?i (repairPatches scene rA rB) sb) = ?b"
    by (simp add: last_boards)
  define st' where "st' = retryScene ai scene st"
  have st1: "storyboard st' = Some ?b" by (simp add: st'_def run fin)
  have tr1: "trace st' = trace st @ evs" by (simp add: st'_def run)
  from Cons.IH [OF st1] obtain new bs where
    pb: "passBoards repairPatches ?b rest bs"
    and tr: "trace (retryScenes ai rest st') = trace st' @ new"
    and sn: "stores new = map Some bs"
    and sb': "storyboard (retryScenes ai rest st') = Some (last (?b # bs))"
    by blast
  have step: "retryScenes ai (scene # rest) st = retryScenes ai rest st'"
    by (simp add: st'_def)
  have pb': "passBoards repairPatches sb (scene # rest)
               (boards ?i (repairPatches scene rA rB) sb @ bs)"
    by (rule passCons [OF prA prB pb])
  have tr': "trace (retryScenes ai (scene # rest) st) = trace st @ (evs @ new)"
    unfolding step tr tr1 by simp
  have sn': "stores (evs @ new) = map Some (boards ?i (repairPatches scene rA rB) sb @ bs)"
    by (simp add: stores_append ev sn)
  have last': "last (sb # boards ?i (repairPatches scene rA rB) sb @ bs) = last (?b # bs)"
    using fin by simp
  have sbF: "storyboard (retryScenes ai (scene # rest) st)
             = Some (last (sb # boards ?i (repairPatches scene rA rB) sb @ bs))"
    unfolding step sb' last' by (rule refl)
  show ?case
    using pb' tr' sn' sbF by blast
qed

text \<open>
  The store values of the whole pipeline: those of the first pass over the scenes of the
  plan, then those of the repair pass over a snapshot of scenes, which the repair pass
  takes from the reference.
\<close>

lemma processImagesQueue_boards:
  assumes sb: "storyboard st = Some sb"
  shows "\<exists>new bs1 bs2 snapshot.
           passBoards (\<lambda>scene. firstPassPatches) sb (scenes data) bs1
           \<and> passBoards repairPatches (last (sb # bs1)) snapshot bs2
           \<and> trace (processImagesQueue ai data st) = trace st @ new
           \<and> stores new = map Some (bs1 @ bs2)
           \<and> storyboard (processImagesQueue ai data st) = Some (last (sb # bs1 @ bs2))"
proof -
  define st1 where "st1 = snd (firstPass ai (scenes data) st)"
  from firstPass_boards [OF sb, of "scenes data" ai] obtain new1 bs1 where
    pb1: "passBoards (\<lambda>scene. firstPassPatches) sb (scenes data) bs1"
    and tr1: "trace st1 = trace st @ new1"
    and sn1: "stores new1 = map Some bs1"
    and sb1: "storyboard st1 = Some (last (sb # bs1))"
    unfolding st1_def by blast
  let ?m = "last (sb # bs1)"
  let ?missing = "\<lambda>scene. \<not> truthy (imageAUrl scene) \<or> \<not> truthy (imageBUrl scene)"
  have run: "processImagesQueue ai data st = retryMissingImages ai data st1"
    unfolding st1_def by (rule processImagesQueue_runs_repair)
  show ?thesis
  proof (cases "storyboardRef st1")
    case None
    then have r: "retryMissingImages ai data st1 = st1"
      by (simp add: retryMissingImages_def)
    have "passBoards repairPatches ?m [] []" by (rule passNil)
    then show ?thesis
      using pb1 tr1 sn1 sb1 unfolding run r
      by (intro exI [of _ new1] exI [of _ bs1] exI [of _ "[]"]) simp
  next
    case (Some cur)
    define snapshot where "snapshot = filter ?missing (scenes cur)"
    have r: "retryMissingImages ai data st1 = retryScenes ai snapshot st1"
      by (cases "snapshot = []") (simp_all add: retryMissingImages_def Some snapshot_def)
    from retryScenes_boards [OF sb1, of snapshot ai] obtain new2 bs2 where
      pb2: "passBoards repairPatches ?m snapshot bs2"
      and tr2: "trace (retryScenes ai snapshot st1) = trace st1 @ new2"
      and sn2: "stores new2 = map Some bs2"
      and sb2: "storyboard (retryScenes ai snapshot st1) = Some (last (?m # bs2))"
      by blast
    have tr: "trace (processImagesQueue ai data st) = trace st @ (new1 @ new2)"
      unfolding run r tr2 tr1 by simp
    have sn: "stores (new1 @ new2) = map Some (bs1 @ bs2)"
      by (simp add: stores_append sn1 sn2)
    have l: "last (?m # bs2) = last (sb # bs1 @ bs2)"
      by simp
    have sbF: "storyboard (processImagesQueue ai data st) = Some (last (sb # bs1 @ bs2))"
      unfolding run r sb2 l by (rule refl)
    show ?thesis
      using pb1 pb2 tr sn sbF by blast
  qed
qed


section \<open>Patches and scenes\<close>

lemma scene_id_applyPatch [simp]: "scene_id (applyPatch s u) = scene_id s"
  by (simp add: applyPatch_def)

lemma scene_id_foldl_applyPatch [simp]: "scene_id (foldl applyPatch s us) = scene_id s"
  by (induction us arbitrary: s) simp_all

lemma ids_patchBoard [simp]: "map scene_id (scenes (patchBoard i u b)) = map scene_id (scenes b)"
  by (simp add: patchBoard_def patchScenes_def o_def)

lemma scenes_finalBoard:
  "scenes (finalBoard i us b)
   = map (\<lambda>s. if scene_id s = i then foldl applyPatch s us else s) (scenes b)"
proof (induction us arbitrary: b)
  case Nil
  show ?case by (simp add: map_idI)
next
  case (Cons u us)
  show ?case
    by (simp add: Cons.IH patchBoard_def patchScenes_def o_def cong: if_cong)
qed

lemma ids_finalBoard [simp]: "map scene_id (scenes (finalBoard i us b)) = map scene_id (scenes b)"
  by (simp add: scenes_finalBoard o_def)

lemma passBoards_last_ids:
  "passBoards patches b scs bs \<Longrightarrow> map scene_id (scenes (last (b # bs))) = map scene_id (scenes b)"
proof (induction rule: passBoards.induct)
  case (passNil b)
  show ?case by simp
next
  case (passCons rA rB scene b rest bs)
  show ?case
  proof (cases "bs = []")
    case True
    then show ?thesis
      by (cases "patches scene rA rB = []") (simp_all add: last_boards)
  next
    case False
    then show ?thesis using passCons.IH by simp
  qed
qed

section \<open>Every image is accounted for\<close>

lemma settled_firstPass:
  assumes "properResult rA" "properResult rB"
  shows "settledA (foldl applyPatch s (firstPassPatches rA rB))
         \<and> settledB (foldl applyPatch s (firstPassPatches rA rB))"
  using assms
  by (auto simp: firstPassPatches_def settledA_def settledB_def applyPatch_def override_def
        outcomePatchA_def outcomePatchB_def noPatch_def properResult_def truthy_def flagSet_def
      split: sum.splits)

lemma settled_repair:
  assumes "properResult rA" "properResult rB" "settledA s \<and> settledB s"
  shows "settledA (foldl applyPatch s (repairPatches scene rA rB))
         \<and> settledB (foldl applyPatch s (repairPatches scene rA rB))"
  using assms
  by (auto simp: repairPatches_def settledA_def settledB_def applyPatch_def override_def
        outcomePatchA_def outcomePatchB_def noPatch_def properResult_def truthy_def flagSet_def
      split: sum.splits)

lemma last_pass_step: "last (b # boards i us b @ bs) = last (finalBoard i us b # bs)"
  by (cases "bs = []") (simp_all add: finalBoard_def)

lemma firstPass_settles:
  assumes "passBoards (\<lambda>scene. firstPassPatches) b scs bs"
    and "\<forall>s \<in> set (scenes b). scene_id s \<in> S \<longrightarrow> settledA s \<and> settledB s"
  shows "\<forall>s \<in> set (scenes (last (b # bs))).
           scene_id s \<in> S \<union> scene_id ` set scs \<longrightarrow> settledA s \<and> settledB s"
  using assms
proof (induction arbitrary: S rule: passBoards.induct)
  case (passNil b)
  then show ?case by simp
next
  case (passCons rA rB scene b rest bs)
  let ?i = "scene_id scene"
  let ?b = "finalBoard ?i (firstPassPatches rA rB) b"
  have "\<forall>s \<in> set (scenes ?b). scene_id s \<in> insert ?i S \<longrightarrow> settledA s \<and> settledB s"
    using passCons.prems settled_firstPass [OF passCons.hyps(1,2)]
    by (auto simp: scenes_finalBoard)
  from passCons.IH [OF this]
  have "\<forall>s \<in> set (scenes (last (?b # bs))).
           scene_id s \<in> insert ?i S \<union> scene_id ` set rest \<longrightarrow> settledA s \<and> settledB s" .
  then show ?case unfolding last_pass_step by auto
qed

lemma repair_keeps_settled:
  assumes "passBoards repairPatches b scs bs"
    and "\<forall>s \<in> set (scenes b). settledA s \<and> settledB s"
  shows "\<forall>s \<in> set (scenes (last (b # bs))). settledA s \<and> settledB s"
  using assms
proof (induction rule: passBoards.induct)
  case (passNil b)
  then show ?case by simp
next
  case (passCons rA rB scene b rest bs)
  let ?i = "scene_id scene"
  let ?b = "finalBoard ?i (repairPatches scene rA rB) b"
  have "\<forall>s \<in> set (scenes ?b). settledA s \<and> settledB s"
    using passCons.prems settled_repair [OF passCons.hyps(1,2)]
    by (auto simp: scenes_finalBoard)
  from passCons.IH [OF this]
  show ?case unfolding last_pass_step .
qed

lemma settled_accounted: "settledA s \<and> settledB s \<Longrightarrow> accounted s"
  by (auto simp: settledA_def settledB_def accounted_def flagSet_def)

text \<open>
  C2. Starting from a store that holds the scenes of the plan, the store after the whole
  pipeline (first pass, then repair pass) holds a storyboard in which every scene has
  both images, or has \<open>imageAFailed\<close> or \<open>imageBFailed\<close> set to true.
\<close>

theorem processImagesQueue_accounts_for_every_scene:
  assumes "storyboard st = Some sb" and "scenes sb = scenes data"
  shows "\<exists>final. storyboard (processImagesQueue ai data st) = Some final
           \<and> (\<forall>s \<in> set (scenes final).
                 (truthy (imageAUrl s) \<and> truthy (imageBUrl s))
                 \<or> imageAFailed s = Some True \<or> imageBFailed s = Some True)"
proof -
  from processImagesQueue_boards [OF assms(1), of data ai] obtain bs1 bs2 snapshot where
    pb1: "passBoards (\<lambda>scene. firstPassPatches) sb (scenes data) bs1"
    and pb2: "passBoards repairPatches (last (sb # bs1)) snapshot bs2"
    and fin: "storyboard (processImagesQueue ai data st) = Some (last (sb # bs1 @ bs2))"
    by blast
  define m where "m = last (sb # bs1)"
  define final where "final = last (sb # bs1 @ bs2)"
  have first: "\<forall>s \<in> set (scenes m). scene_id s \<in> {} \<union> scene_id ` set (scenes data) \<longrightarrow> settledA s \<and> settledB s"
    unfolding m_def by (rule firstPass_settles [OF pb1]) simp
  have ids: "scene_id ` set (scenes m) = scene_id ` set (scenes data)"
    unfolding m_def using passBoards_last_ids [OF pb1] assms(2) by (metis set_map)
  have "\<forall>s \<in> set (scenes m). settledA s \<and> settledB s"
  proof
    fix s assume s: "s \<in> set (scenes m)"
    then have "scene_id s \<in> scene_id ` set (scenes m)" by (rule imageI)
    then have "scene_id s \<in> {} \<union> scene_id ` set (scenes data)" unfolding ids by simp
    with first s show "settledA s \<and> settledB s" by blast
  qed
  from repair_keeps_settled [OF pb2 [folded m_def] this]
  have "\<forall>s \<in> set (scenes (last (m # bs2))). settledA s \<and> settledB s" .
  moreover have "last (m # bs2) = final"
    by (simp add: m_def final_def)
  ultimately have "\<forall>s \<in> set (scenes final). accounted s"
    using settled_accounted by auto
  then have "\<forall>s \<in> set (scenes final).
                 (truthy (imageAUrl s) \<and> truthy (imageBUrl s))
                 \<or> imageAFailed s = Some True \<or> imageBFailed s = Some True"
    by (simp add: accounted_def)
  with fin [folded final_def] show ?thesis by blast
qed

theorem processImagesQueue_accounts_for_every_scene_witness:
  "storyboard (replaceStoryboard plan2 state0) = Some plan2 \<and> scenes plan2 = scenes plan2
   \<and> (\<exists>final. storyboard (processImagesQueue forbiddenFirst plan2 (replaceStoryboard plan2 state0)) = Some final
           \<and> (\<forall>s \<in> set (scenes final).
                 (truthy (imageAUrl s) \<and> truthy (imageBUrl s))
                 \<or> imageAFailed s = Some True \<or> imageBFailed s = Some True))"
proof -
  have h: "storyboard (replaceStoryboard plan2 state0) = Some plan2"
    by (simp add: replaceStoryboard_def)
  show ?thesis
    using h processImagesQueue_accounts_for_every_scene [OF h refl, of forbiddenFirst]
    by simp
qed


section \<open>At most one scene is generating\<close>

lemma generating_patch_other:
  assumes "\<forall>s \<in> set (scenes b). generating s \<longrightarrow> scene_id s = i"
  shows "\<forall>s \<in> set (scenes (patchBoard i u b)). generating s \<longrightarrow> scene_id s = i"
  using assms by (auto simp: patchBoard_def patchScenes_def)

lemma boards_only_generating:
  assumes "\<forall>s \<in> set (scenes b). generating s \<longrightarrow> scene_id s = i"
  shows "\<forall>b' \<in> set (boards i us b). \<forall>s \<in> set (scenes b'). generating s \<longrightarrow> scene_id s = i"
  using assms
proof (induction us arbitrary: b)
  case Nil
  show ?case by simp
next
  case (Cons u us)
  have 1: "\<forall>s \<in> set (scenes (patchBoard i u b)). generating s \<longrightarrow> scene_id s = i"
    by (rule generating_patch_other [OF Cons.prems])
  from Cons.IH [OF 1] 1 show ?case by simp
qed

lemma boards_ids:
  "\<forall>b' \<in> set (boards i us b). map scene_id (scenes b') = map scene_id (scenes b)"
proof (induction us arbitrary: b)
  case Nil
  show ?case by simp
next
  case (Cons u us)
  from Cons.IH [of "patchBoard i u b"] show ?case by simp
qed

lemma filter_id_distinct:
  "distinct (map scene_id scs) \<Longrightarrow> length (filter (\<lambda>s. scene_id s = i) scs) \<le> 1"
proof (induction scs)
  case Nil
  show ?case by simp
next
  case (Cons s scs)
  show ?case
  proof (cases "scene_id s = i")
    case True
    then have "i \<notin> scene_id ` set scs" using Cons.prems by auto
    then have "filter (\<lambda>s. scene_id s = i) scs = []"
      by (auto simp: filter_empty_conv)
    then show ?thesis using True by simp
  next
    case False
    then show ?thesis using Cons by simp
  qed
qed

lemma filter_length_mono:
  "(\<forall>x \<in> set xs. P x \<longrightarrow> Q x) \<Longrightarrow> length (filter P xs) \<le> length (filter Q xs)"
  by (induction xs) auto

lemma only_generating_atMostOne:
  assumes "distinct (map scene_id (scenes b))"
    and "\<forall>s \<in> set (scenes b). generating s \<longrightarrow> scene_id s = i"
  shows "atMostOneGenerating b"
proof -
  have "length (filter generating (scenes b)) \<le> length (filter (\<lambda>s. scene_id s = i) (scenes b))"
    by (rule filter_length_mono) (use assms(2) in blast)
  also have "\<dots> \<le> 1" by (rule filter_id_distinct [OF assms(1)])
  finally show ?thesis by (simp add: atMostOneGenerating_def)
qed

lemma firstPassPatches_clears [simp]:
  "\<not> generating (foldl applyPatch s (firstPassPatches rA rB))"
  by (simp add: firstPassPatches_def generating_def flagSet_def applyPatch_def override_def
        outcomePatchA_def outcomePatchB_def noPatch_def split: sum.splits)

lemma repairPatches_clears [simp]:
  "\<not> generating (foldl applyPatch s (repairPatches scene rA rB))"
  by (simp add: repairPatches_def generating_def flagSet_def applyPatch_def override_def)

lemma pass_atMostOne:
  assumes "passBoards patches b scs bs"
    and "\<And>scene rA rB s. \<not> generating (foldl applyPatch s (patches scene rA rB))"
    and "distinct (map scene_id (scenes b))"
    and "\<forall>s \<in> set (scenes b). \<not> generating s"
  shows "(\<forall>b' \<in> set bs. atMostOneGenerating b')
         \<and> (\<forall>s \<in> set (scenes (last (b # bs))). \<not> generating s)
         \<and> distinct (map scene_id (scenes (last (b # bs))))"
  using assms
proof (induction rule: passBoards.induct)
  case (passNil b)
  then show ?case by simp
next
  case (passCons rA rB scene b rest bs)
  let ?i = "scene_id scene"
  let ?us = "patches scene rA rB"
  let ?b = "finalBoard ?i ?us b"
  have only: "\<forall>s \<in> set (scenes b). generating s \<longrightarrow> scene_id s = ?i"
    using passCons.prems(3) by blast
  have here: "\<forall>b' \<in> set (boards ?i ?us b). atMostOneGenerating b'"
  proof
    fix b' assume b': "b' \<in> set (boards ?i ?us b)"
    have "distinct (map scene_id (scenes b'))"
      using boards_ids [of ?i ?us b] b' passCons.prems(2) by simp
    moreover have "\<forall>s \<in> set (scenes b'). generating s \<longrightarrow> scene_id s = ?i"
      using boards_only_generating [OF only, of ?us] b' by blast
    ultimately show "atMostOneGenerating b'" by (rule only_generating_atMostOne)
  qed
  have none: "\<forall>s \<in> set (scenes ?b). \<not> generating s"
    using passCons.prems(1,3) by (auto simp: scenes_finalBoard)
  have dist: "distinct (map scene_id (scenes ?b))"
    using passCons.prems(2) by simp
  from passCons.IH [OF passCons.prems(1) dist none]
  have rest: "(\<forall>b' \<in> set bs. atMostOneGenerating b')
         \<and> (\<forall>s \<in> set (scenes (last (?b # bs))). \<not> generating s)
         \<and> distinct (map scene_id (scenes (last (?b # bs))))" .
  show ?case
    unfolding last_pass_step using here rest by auto
qed

lemma firstPass_segment_boards:
  assumes bs: "[b1, b2, b3, b4, b5, b6]
       = boards i
           [noPatch\<lparr>p_isGeneratingImage := Some True\<rparr>, noPatch\<lparr>p_retryAttempt := Some 1\<rparr>,
            outcomePatchA rA, noPatch\<lparr>p_retryAttempt := Some 2\<rparr>, outcomePatchB rB,
            noPatch\<lparr>p_isGeneratingImage := Some False\<rparr>] sb"
    and pr: "properResult rA"
    and none: "\<forall>s \<in> set (scenes sb). \<not> generating s"
  shows "(\<forall>b \<in> set [b1, b2, b3, b4, b5]. \<forall>s \<in> set (scenes b). generating s = (scene_id s = i))
         \<and> (\<forall>s \<in> set (scenes b3). scene_id s = i \<longrightarrow> settledA s)
         \<and> (\<forall>s \<in> set (scenes b6). \<not> generating s)"
proof -
  let ?T = "noPatch\<lparr>p_isGeneratingImage := Some True\<rparr>"
  let ?F = "noPatch\<lparr>p_isGeneratingImage := Some False\<rparr>"
  let ?a1 = "noPatch\<lparr>p_retryAttempt := Some 1\<rparr>"
  let ?a2 = "noPatch\<lparr>p_retryAttempt := Some 2\<rparr>"
  have b1: "b1 = finalBoard i [?T] sb"
    and b2: "b2 = finalBoard i [?T, ?a1] sb"
    and b3: "b3 = finalBoard i [?T, ?a1, outcomePatchA rA] sb"
    and b4: "b4 = finalBoard i [?T, ?a1, outcomePatchA rA, ?a2] sb"
    and b5: "b5 = finalBoard i [?T, ?a1, outcomePatchA rA, ?a2, outcomePatchB rB] sb"
    and b6: "b6 = finalBoard i [?T, ?a1, outcomePatchA rA, ?a2, outcomePatchB rB, ?F] sb"
    using bs by simp_all
  have g: "\<And>s. generating (foldl applyPatch s [?T])"
    "\<And>s. generating (foldl applyPatch s [?T, ?a1])"
    "\<And>s. generating (foldl applyPatch s [?T, ?a1, outcomePatchA rA])"
    "\<And>s. generating (foldl applyPatch s [?T, ?a1, outcomePatchA rA, ?a2])"
    "\<And>s. generating (foldl applyPatch s [?T, ?a1, outcomePatchA rA, ?a2, outcomePatchB rB])"
    "\<And>s. \<not> generating (foldl applyPatch s [?T, ?a1, outcomePatchA rA, ?a2, outcomePatchB rB, ?F])"
    by (simp_all add: generating_def flagSet_def applyPatch_def override_def
          outcomePatchA_def outcomePatchB_def noPatch_def split: sum.splits)
  have a: "\<And>s. settledA (foldl applyPatch s [?T, ?a1, outcomePatchA rA])"
    using pr
    by (auto simp: settledA_def flagSet_def truthy_def applyPatch_def override_def
          outcomePatchA_def noPatch_def properResult_def split: sum.splits)
  have "\<forall>s \<in> set (scenes b1). generating s = (scene_id s = i)"
    unfolding b1 scenes_finalBoard using none g(1) by auto
  moreover have "\<forall>s \<in> set (scenes b2). generating s = (scene_id s = i)"
    unfolding b2 scenes_finalBoard using none g(2) by auto
  moreover have "\<forall>s \<in> set (scenes b3). generating s = (scene_id s = i)"
    unfolding b3 scenes_finalBoard using none g(3) by auto
  moreover have "\<forall>s \<in> set (scenes b4). generating s = (scene_id s = i)"
    unfolding b4 scenes_finalBoard using none g(4) by auto
  moreover have "\<forall>s \<in> set (scenes b5). generating s = (scene_id s = i)"
    unfolding b5 scenes_finalBoard using none g(5) by auto
  moreover have "\<forall>s \<in> set (scenes b3). scene_id s = i \<longrightarrow> settledA s"
    unfolding b3 scenes_finalBoard using a by auto
  moreover have "\<forall>s \<in> set (scenes b6). \<not> generating s"
    unfolding b6 scenes_finalBoard using none g(6) by auto
  ultimately show ?thesis by simp
qed

lemma firstPass_segments:
  assumes "storyboard st = Some sb" and "\<forall>s \<in> set (scenes sb). \<not> generating s"
  shows "\<exists>segs. trace (snd (firstPass ai scs st)) = trace st @ concat segs
           \<and> list_all2
                (\<lambda>scene seg. \<exists>b1 b2 b3 b4 b5 b6 evsA evsB.
                   seg = [Store (Some b1), Store (Some b2)] @ evsA
                           @ [Store (Some b3), Store (Some b4)] @ evsB
                           @ [Store (Some b5), Store (Some b6)]
                   \<and> backendOnly (imageADescription scene) evsA
                   \<and> backendOnly (imageBDescription scene) evsB
                   \<and> (\<forall>b \<in> set [b1, b2, b3, b4, b5].
                         \<forall>s \<in> set (scenes b). generating s = (scene_id s = scene_id scene))
                   \<and> (\<forall>s \<in> set (scenes b3). scene_id s = scene_id scene \<longrightarrow> settledA s)
                   \<and> (\<forall>s \<in> set (scenes b6). \<not> generating s))
                scs segs"
  using assms
proof (induction scs arbitrary: st sb)
  case Nil
  show ?case by (intro exI [of _ "[]"]) simp
next
  case (Cons scene rest)
  let ?i = "scene_id scene"
  obtain rA rB evsA evsB n b1 b2 b3 b4 b5 b6 where
    prA: "properResult rA" and prB: "properResult rB"
    and boA: "backendOnly (imageADescription scene) evsA"
    and boB: "backendOnly (imageBDescription scene) evsB"
    and bs: "[b1, b2, b3, b4, b5, b6]
       = boards ?i
           [noPatch\<lparr>p_isGeneratingImage := Some True\<rparr>, noPatch\<lparr>p_retryAttempt := Some 1\<rparr>,
            outcomePatchA rA, noPatch\<lparr>p_retryAttempt := Some 2\<rparr>, outcomePatchB rB,
            noPatch\<lparr>p_isGeneratingImage := Some False\<rparr>] sb"
    and run: "processScene ai scene st
       = (Continue,
          st\<lparr>calls := calls st + n,
              trace := trace st @ [Store (Some b1), Store (Some b2)] @ evsA
                         @ [Store (Some b3), Store (Some b4)] @ evsB
                         @ [Store (Some b5), Store (Some b6)],
              storyboard := Some b6, storyboardRef := Some b4, pendingRef := Some b6\<rparr>)"
    by (rule processScene_run [OF Cons.prems(1)])
  define seg where "seg = [Store (Some b1), Store (Some b2)] @ evsA
                         @ [Store (Some b3), Store (Some b4)] @ evsB
                         @ [Store (Some b5), Store (Some b6)]"
  define st' where "st' = st\<lparr>calls := calls st + n, trace := trace st @ seg,
                               storyboard := Some b6, storyboardRef := Some b4, pendingRef := Some b6\<rparr>"
  note facts = firstPass_segment_boards [OF bs prA Cons.prems(2)]
  have st1: "storyboard st' = Some b6" by (simp add: st'_def)
  have none: "\<forall>s \<in> set (scenes b6). \<not> generating s" using facts by blast
  from Cons.IH [OF st1 none] obtain segs where
    tr: "trace (snd (firstPass ai rest st')) = trace st' @ concat segs"
    and all: "list_all2
                (\<lambda>scene seg. \<exists>b1 b2 b3 b4 b5 b6 evsA evsB.
                   seg = [Store (Some b1), Store (Some b2)] @ evsA
                           @ [Store (Some b3), Store (Some b4)] @ evsB
                           @ [Store (Some b5), Store (Some b6)]
                   \<and> backendOnly (imageADescription scene) evsA
                   \<and> backendOnly (imageBDescription scene) evsB
                   \<and> (\<forall>b \<in> set [b1, b2, b3, b4, b5].
                         \<forall>s \<in> set (scenes b). generating s = (scene_id s = scene_id scene))
                   \<and> (\<forall>s \<in> set (scenes b3). scene_id s = scene_id scene \<longrightarrow> settledA s)
                   \<and> (\<forall>s \<in> set (scenes b6). \<not> generating s))
                rest segs"
    by blast
  have step: "firstPass ai (scene # rest) st = firstPass ai rest st'"
    by (simp add: run st'_def seg_def)
  have tr': "trace (snd (firstPass ai (scene # rest) st)) = trace st @ concat (seg # segs)"
    unfolding step tr by (simp add: st'_def)
  have here: "\<exists>b1 b2 b3 b4 b5 b6 evsA evsB.
                   seg = [Store (Some b1), Store (Some b2)] @ evsA
                           @ [Store (Some b3), Store (Some b4)] @ evsB
                           @ [Store (Some b5), Store (Some b6)]
                   \<and> backendOnly (imageADescription scene) evsA
                   \<and> backendOnly (imageBDescription scene) evsB
                   \<and> (\<forall>b \<in> set [b1, b2, b3, b4, b5].
                         \<forall>s \<in> set (scenes b). generating s = (scene_id s = scene_id scene))
                   \<and> (\<forall>s \<in> set (scenes b3). scene_id s = scene_id scene \<longrightarrow> settledA s)
                   \<and> (\<forall>s \<in> set (scenes b6). \<not> generating s)"
    using seg_def boA boB facts by blast
  show ?case
    by (rule exI [of _ "seg # segs"]) (use tr' here all in blast)
qed

text \<open>
  C7. Let the store hold a storyboard whose scene ids are distinct and in which no scene
  is generating. Then every value the store takes during the pipeline (first pass and
  repair pass) has at most one scene with \<open>isGeneratingImage = true\<close>. Moreover the
  trace of the first pass is the concatenation, in plan order, of one segment for each
  scene: the write that sets the flag and the write of \<open>retryAttempt = 1\<close>; then the
  backend calls and waits for image A only; then the write that records the outcome of
  image A and the write of \<open>retryAttempt = 2\<close>; then the backend calls and waits for
  image B only; then the write that records the outcome of image B and the write that
  clears the flag. In the first five writes of a segment exactly the scenes with the id
  of the segment are generating, and after the last write no scene is.
\<close>

theorem at_most_one_scene_generating:
  assumes "storyboard st = Some sb"
    and "distinct (map scene_id (scenes sb))"
    and "\<forall>s \<in> set (scenes sb). \<not> generating s"
  shows "(\<exists>new bs. trace (processImagesQueue ai data st) = trace st @ new
              \<and> stores new = map Some bs
              \<and> (\<forall>b \<in> set bs. atMostOneGenerating b))
         \<and> (\<exists>segs. trace (snd (firstPass ai (scenes data) st)) = trace st @ concat segs
              \<and> list_all2
                   (\<lambda>scene seg. \<exists>b1 b2 b3 b4 b5 b6 evsA evsB.
                      seg = [Store (Some b1), Store (Some b2)] @ evsA
                              @ [Store (Some b3), Store (Some b4)] @ evsB
                              @ [Store (Some b5), Store (Some b6)]
                      \<and> backendOnly (imageADescription scene) evsA
                      \<and> backendOnly (imageBDescription scene) evsB
                      \<and> (\<forall>b \<in> set [b1, b2, b3, b4, b5].
                            \<forall>s \<in> set (scenes b). generating s = (scene_id s = scene_id scene))
                      \<and> (\<forall>s \<in> set (scenes b3). scene_id s = scene_id scene \<longrightarrow> settledA s)
                      \<and> (\<forall>s \<in> set (scenes b6). \<not> generating s))
                   (scenes data) segs)"
proof -
  from processImagesQueue_boards [OF assms(1), of data ai] obtain new bs1 bs2 snapshot where
    pb1: "passBoards (\<lambda>scene. firstPassPatches) sb (scenes data) bs1"
    and pb2: "passBoards repairPatches (last (sb # bs1)) snapshot bs2"
    and tr: "trace (processImagesQueue ai data st) = trace st @ new"
    and sn: "stores new = map Some (bs1 @ bs2)"
    by blast
  have one1: "(\<forall>b' \<in> set bs1. atMostOneGenerating b')
         \<and> (\<forall>s \<in> set (scenes (last (sb # bs1))). \<not> generating s)
         \<and> distinct (map scene_id (scenes (last (sb # bs1))))"
    by (rule pass_atMostOne [OF pb1 _ assms(2,3)]) simp
  then have d: "distinct (map scene_id (scenes (last (sb # bs1))))"
    and n: "\<forall>s \<in> set (scenes (last (sb # bs1))). \<not> generating s"
    by blast+
  have one2: "(\<forall>b' \<in> set bs2. atMostOneGenerating b')
         \<and> (\<forall>s \<in> set (scenes (last (last (sb # bs1) # bs2))). \<not> generating s)
         \<and> distinct (map scene_id (scenes (last (last (sb # bs1) # bs2))))"
    by (rule pass_atMostOne [OF pb2 _ d n]) simp
  have "\<forall>b \<in> set (bs1 @ bs2). atMostOneGenerating b"
    using one1 one2 by auto
  with tr sn have part1: "\<exists>new bs. trace (processImagesQueue ai data st) = trace st @ new
              \<and> stores new = map Some bs
              \<and> (\<forall>b \<in> set bs. atMostOneGenerating b)"
    by blast
  show ?thesis
    using part1 firstPass_segments [OF assms(1,3), of ai "scenes data"] by blast
qed

theorem at_most_one_scene_generating_witness:
  "storyboard (replaceStoryboard plan2 state0) = Some plan2
   \<and> distinct (map scene_id (scenes plan2))
   \<and> list_all (\<lambda>s. \<not> generating s) (scenes plan2)
   \<and> (\<exists>new bs. trace (processImagesQueue forbiddenFirst plan2 (replaceStoryboard plan2 state0)) = trace (replaceStoryboard plan2 state0) @ new
              \<and> stores new = map Some bs
              \<and> (\<forall>b \<in> set bs. atMostOneGenerating b))
         \<and> (\<exists>segs. trace (snd (firstPass forbiddenFirst (scenes plan2) (replaceStoryboard plan2 state0))) = trace (replaceStoryboard plan2 state0) @ concat segs
              \<and> list_all2
                   (\<lambda>scene seg. \<exists>b1 b2 b3 b4 b5 b6 evsA evsB.
                      seg = [Store (Some b1), Store (Some b2)] @ evsA
                              @ [Store (Some b3), Store (Some b4)] @ evsB
                              @ [Store (Some b5), Store (Some b6)]
                      \<and> backendOnly (imageADescription scene) evsA
                      \<and> backendOnly (imageBDescription scene) evsB
                      \<and> (\<forall>b \<in> set [b1, b2, b3, b4, b5].
                            \<forall>s \<in> set (scenes b). generating s = (scene_id s = scene_id scene))
                      \<and> (\<forall>s \<in> set (scenes b3). scene_id s = scene_id scene \<longrightarrow> settledA s)
                      \<and> (\<forall>s \<in> set (scenes b6). \<not> generating s))
                   (scenes plan2) segs)"
proof -
  have h1: "storyboard (replaceStoryboard plan2 state0) = Some plan2"
    by (simp add: replaceStoryboard_def)
  have h2: "distinct (map scene_id (scenes plan2))"
    by (simp add: plan2_def planScene_def)
  have h3: "\<forall>s \<in> set (scenes plan2). \<not> generating s"
    by (simp add: plan2_def planScene_def generating_def flagSet_def)
  have h3': "list_all (\<lambda>s. \<not> generating s) (scenes plan2)"
    using h3 by (simp add: list_all_iff)
  show ?thesis
    using h1 h2 h3' at_most_one_scene_generating [OF h1 h2 h3, of forbiddenFirst plan2]
    by blast
qed


section \<open>Images once generated\<close>

text \<open>The first pass never clears or replaces an image.\<close>

lemma keeps_refl [simp]: "keeps s s"
  by (simp add: keeps_def)

lemma keeps_trans: "keeps s t \<Longrightarrow> keeps t u \<Longrightarrow> keeps s u"
  by (auto simp: keeps_def split: if_splits)

lemma urlsKept_refl [simp]: "urlsKept b b"
  by (simp add: urlsKept_def list_all2_refl)

lemma urlsKept_trans: "urlsKept a b \<Longrightarrow> urlsKept b c \<Longrightarrow> urlsKept a c"
  unfolding urlsKept_def by (rule list_all2_trans [of keeps keeps keeps]) (auto intro: keeps_trans)

lemma urlsKept_patchBoard:
  assumes "\<forall>s \<in> set (scenes b). scene_id s = i \<longrightarrow> keeps s (applyPatch s u)"
  shows "urlsKept b (patchBoard i u b)"
  using assms
  by (auto simp: urlsKept_def patchBoard_def patchScenes_def list_all2_map2 list_all2_same)

lemma sorted_wrt_last:
  assumes "sorted_wrt P (x # xs)" and "\<And>y. P y y"
  shows "\<forall>y \<in> set (x # xs). P y (last (x # xs))"
  using assms(1)
proof (induction xs arbitrary: x)
  case Nil
  show ?case using assms(2) by simp
next
  case (Cons z zs)
  from Cons.prems have 1: "sorted_wrt P (z # zs)" and 2: "\<forall>y \<in> set (z # zs). P x y"
    by simp_all
  from Cons.IH [OF 1] have "\<forall>y \<in> set (z # zs). P y (last (z # zs))" .
  moreover have "P x (last (z # zs))" using 2 by (metis last_in_set list.distinct(1))
  ultimately show ?case by simp
qed

lemma boards_sorted:
  assumes "\<forall>s \<in> set (scenes b). scene_id s = i \<longrightarrow> keepsAlong s us"
  shows "sorted_wrt urlsKept (b # boards i us b)"
  using assms
proof (induction us arbitrary: b)
  case Nil
  show ?case by simp
next
  case (Cons u us)
  let ?b = "patchBoard i u b"
  have step: "urlsKept b ?b"
    by (rule urlsKept_patchBoard) (use Cons.prems in auto)
  have "\<forall>s \<in> set (scenes ?b). scene_id s = i \<longrightarrow> keepsAlong s us"
    using Cons.prems by (auto simp: patchBoard_def patchScenes_def)
  from Cons.IH [OF this] have rest: "sorted_wrt urlsKept (?b # boards i us ?b)" .
  then have "\<forall>x \<in> set (boards i us ?b). urlsKept ?b x" by simp
  then have "\<forall>x \<in> set (boards i us ?b). urlsKept b x"
    using step urlsKept_trans by blast
  then show ?case using step rest by simp
qed

lemma pass_sorted:
  assumes "passBoards patches b scs bs"
    and "J scs b"
    and step: "\<And>scene rest b rA rB. J (scene # rest) b \<Longrightarrow>
            (\<forall>s \<in> set (scenes b). scene_id s = scene_id scene \<longrightarrow> keepsAlong s (patches scene rA rB))
            \<and> J rest (finalBoard (scene_id scene) (patches scene rA rB) b)"
  shows "sorted_wrt urlsKept (b # bs)"
  using assms(1,2)
proof (induction rule: passBoards.induct)
  case (passNil b)
  show ?case by simp
next
  case (passCons rA rB scene b rest bs)
  let ?i = "scene_id scene"
  let ?us = "patches scene rA rB"
  let ?b = "finalBoard ?i ?us b"
  from step [OF passCons.prems, of rA rB]
  have along: "\<forall>s \<in> set (scenes b). scene_id s = ?i \<longrightarrow> keepsAlong s ?us"
    and J': "J rest ?b"
    by blast+
  have here: "sorted_wrt urlsKept (b # boards ?i ?us b)"
    by (rule boards_sorted [OF along])
  have rest: "sorted_wrt urlsKept (?b # bs)"
    by (rule passCons.IH [OF J'])
  have to_last: "\<forall>x \<in> set (b # boards ?i ?us b). urlsKept x ?b"
    using sorted_wrt_last [OF here, of] by (simp add: finalBoard_def)
  have from_last: "\<forall>y \<in> set bs. urlsKept ?b y"
    using rest by simp
  have cross: "\<forall>x \<in> set (b # boards ?i ?us b). \<forall>y \<in> set bs. urlsKept x y"
    using to_last from_last urlsKept_trans by blast
  have "sorted_wrt urlsKept ((b # boards ?i ?us b) @ bs)"
    unfolding sorted_wrt_append using here rest cross by simp
  then show ?case by simp
qed

lemma keepsAlong_firstPass:
  assumes "\<not> truthy (imageAUrl s)" "\<not> truthy (imageBUrl s)"
  shows "keepsAlong s (firstPassPatches rA rB)"
  using assms
  by (auto simp: firstPassPatches_def keeps_def applyPatch_def override_def
        outcomePatchA_def outcomePatchB_def noPatch_def split: sum.splits)

lemma firstPass_sorted:
  assumes pb: "passBoards (\<lambda>scene. firstPassPatches) b scs bs"
    and dist: "distinct (map scene_id scs)"
    and fresh: "\<forall>s \<in> set (scenes b). scene_id s \<in> scene_id ` set scs \<longrightarrow>
                  \<not> truthy (imageAUrl s) \<and> \<not> truthy (imageBUrl s)"
  shows "sorted_wrt urlsKept (b # bs)"
proof (rule pass_sorted [OF pb, where J = "\<lambda>scs b. distinct (map scene_id scs)
        \<and> (\<forall>s \<in> set (scenes b). scene_id s \<in> scene_id ` set scs \<longrightarrow>
                  \<not> truthy (imageAUrl s) \<and> \<not> truthy (imageBUrl s))"])
  show "distinct (map scene_id scs)
        \<and> (\<forall>s \<in> set (scenes b). scene_id s \<in> scene_id ` set scs \<longrightarrow>
                  \<not> truthy (imageAUrl s) \<and> \<not> truthy (imageBUrl s))"
    using dist fresh by simp
next
  fix scene :: Scene and rest :: "Scene list" and b :: StoryboardData
    and rA rB :: "error + string"
  assume J: "distinct (map scene_id (scene # rest))
        \<and> (\<forall>s \<in> set (scenes b). scene_id s \<in> scene_id ` set (scene # rest) \<longrightarrow>
                  \<not> truthy (imageAUrl s) \<and> \<not> truthy (imageBUrl s))"
  have 1: "\<forall>s \<in> set (scenes b). scene_id s = scene_id scene \<longrightarrow>
              keepsAlong s (firstPassPatches rA rB)"
    using J by (auto intro: keepsAlong_firstPass)
  have 2: "distinct (map scene_id rest)" using J by simp
  have 3: "\<forall>s \<in> set (scenes (finalBoard (scene_id scene) (firstPassPatches rA rB) b)).
              scene_id s \<in> scene_id ` set rest \<longrightarrow>
              \<not> truthy (imageAUrl s) \<and> \<not> truthy (imageBUrl s)"
    using J by (auto simp: scenes_finalBoard)
  show "(\<forall>s \<in> set (scenes b). scene_id s = scene_id scene \<longrightarrow>
              keepsAlong s (firstPassPatches rA rB))
        \<and> (distinct (map scene_id rest)
           \<and> (\<forall>s \<in> set (scenes (finalBoard (scene_id scene) (firstPassPatches rA rB) b)).
              scene_id s \<in> scene_id ` set rest \<longrightarrow>
              \<not> truthy (imageAUrl s) \<and> \<not> truthy (imageBUrl s)))"
    using 1 2 3 by blast
qed

lemma firstPass_keeps_images:
  assumes sb: "storyboard st = Some sb"
    and dist: "distinct (map scene_id scs)"
    and fresh: "\<forall>s \<in> set (scenes sb). scene_id s \<in> scene_id ` set scs \<longrightarrow>
                  \<not> truthy (imageAUrl s) \<and> \<not> truthy (imageBUrl s)"
  shows "\<exists>new bs. trace (snd (firstPass ai scs st)) = trace st @ new
           \<and> stores new = map Some bs
           \<and> sorted_wrt urlsKept (sb # bs)"
proof -
  from firstPass_boards [OF sb, of scs ai] obtain new bs where
    pb: "passBoards (\<lambda>scene. firstPassPatches) sb scs bs"
    and tr: "trace (snd (firstPass ai scs st)) = trace st @ new"
    and sn: "stores new = map Some bs"
    by blast
  have "sorted_wrt urlsKept (sb # bs)"
    by (rule firstPass_sorted [OF pb dist fresh])
  with tr sn show ?thesis by blast
qed

text \<open>
  C9. The repair pass replaces an image that the first pass generated. On a plan of two
  scenes, with a backend whose every call returns an image that names the call, the first
  pass stores image 1 as image B of the first scene and image 3 as image B of the second
  scene. The reference that the repair pass reads was last assigned at the render during
  the call for that last image, so it holds the second scene without its image B; the
  repair pass therefore calls the backend once more for it (a fifth call, with the
  description of image B of the second scene) and stores image 4 in the place of image 3.
  The sequence of store values of the pipeline does not keep the generated images, while
  that of the first pass alone does.
\<close>

theorem repair_pass_replaces_generated_image:
  "map_option (map imageBUrl \<circ> scenes)
       (storyboard (snd (firstPass numbered (scenes plan2) (replaceStoryboard plan2 state0))))
     = Some [Some ''data:image/png;base64,1'', Some ''data:image/png;base64,3'']
   \<and> map_option (map imageBUrl \<circ> scenes)
       (storyboardRef (snd (firstPass numbered (scenes plan2) (replaceStoryboard plan2 state0))))
     = Some [Some ''data:image/png;base64,1'', None]
   \<and> map_option (map imageBUrl \<circ> scenes)
       (storyboard (processImagesQueue numbered plan2 (replaceStoryboard plan2 state0)))
     = Some [Some ''data:image/png;base64,1'', Some ''data:image/png;base64,4'']
   \<and> backendEvents (trace (processImagesQueue numbered plan2 (replaceStoryboard plan2 state0)))
     = [Call ''a'', Call ''b'', Call ''c'', Call ''d'', Call ''d'']
   \<and> sorted_wrt (rel_option urlsKept)
       (stores (trace (snd (firstPass numbered (scenes plan2) (replaceStoryboard plan2 state0)))))
   \<and> \<not> sorted_wrt (rel_option urlsKept)
       (stores (trace (processImagesQueue numbered plan2 (replaceStoryboard plan2 state0))))"
proof -
  have 1: "map_option (map imageBUrl \<circ> scenes)
       (storyboard (snd (firstPass numbered (scenes plan2) (replaceStoryboard plan2 state0))))
     = Some [Some ''data:image/png;base64,1'', Some ''data:image/png;base64,3'']"
    by code_simp
  have 2: "map_option (map imageBUrl \<circ> scenes)
       (storyboardRef (snd (firstPass numbered (scenes plan2) (replaceStoryboard plan2 state0))))
     = Some [Some ''data:image/png;base64,1'', None]"
    by code_simp
  have 3: "map_option (map imageBUrl \<circ> scenes)
       (storyboard (processImagesQueue numbered plan2 (replaceStoryboard plan2 state0)))
     = Some [Some ''data:image/png;base64,1'', Some ''data:image/png;base64,4'']"
    by code_simp
  have 4: "backendEvents (trace (processImagesQueue numbered plan2 (replaceStoryboard plan2 state0)))
     = [Call ''a'', Call ''b'', Call ''c'', Call ''d'', Call ''d'']"
    by code_simp
  have 5: "sorted_wrt (rel_option urlsKept)
       (stores (trace (snd (firstPass numbered (scenes plan2) (replaceStoryboard plan2 state0)))))"
    by code_simp
  have 6: "\<not> sorted_wrt (rel_option urlsKept)
       (stores (trace (processImagesQueue numbered plan2 (replaceStoryboard plan2 state0))))"
    by code_simp
  from 1 2 3 4 5 6 show ?thesis by blast
qed

section \<open>The analysis client\<close>

lemma parse_empty_object: "JSON_parse ''{}'' = Some (JObject [])"
  by code_simp

lemma parse_open_brace: "JSON_parse ''{'' = None"
  by code_simp

text \<open>
  C6, as stated, fails: the payload \<open>{}\<close> is not of the expected shape, yet
  \<open>generateStoryboardAnalysis\<close> returns it.
\<close>

theorem generateStoryboardAnalysis_accepts_wrong_shape:
  "toStoryboardData (JObject []) = None
   \<and> generateStoryboardAnalysis (TextAnswer (Some ''{}'')) = Inr (JObject [])"
  by (simp add: toStoryboardData_def field_def generateStoryboardAnalysis_def truthy_def
        parse_empty_object)

text \<open>
  C6, amended. For an answer of the backend, \<open>generateStoryboardAnalysis\<close> fails with
  \<open>No response from Gemini.\<close> exactly when the text is empty, fails with
  \<open>Failed to parse storyboard data.\<close> exactly when the text is not empty and is not
  valid JSON, and returns \<open>v\<close> exactly when the text is not empty and parses to \<open>v\<close>,
  whatever the shape of \<open>v\<close>. The two errors differ. When the call fails (also when the
  backend throws), \<open>handleGenerate\<close> leaves the store and the reference empty and sets an
  error message.
\<close>

theorem generateStoryboardAnalysis_fails_iff:
  "(generateStoryboardAnalysis (TextAnswer text) = Inl (Error ''No response from Gemini.''))
     = (\<not> truthy text)
   \<and> (generateStoryboardAnalysis (TextAnswer text) = Inl (Error ''Failed to parse storyboard data.''))
     = (truthy text \<and> JSON_parse (the text) = None)
   \<and> (generateStoryboardAnalysis (TextAnswer text) = Inr v)
     = (truthy text \<and> JSON_parse (the text) = Some v)
   \<and> Error ''No response from Gemini.'' \<noteq> Error ''Failed to parse storyboard data.''
   \<and> (generateStoryboardAnalysis response = Inl e \<longrightarrow>
        fst (handleGenerate_analysis response st) = None
        \<and> storyboard (snd (handleGenerate_analysis response st)) = None
        \<and> storyboardRef (snd (handleGenerate_analysis response st)) = None
        \<and> error (snd (handleGenerate_analysis response st)) \<noteq> None)"
proof -
  have 1: "(generateStoryboardAnalysis (TextAnswer text) = Inl (Error ''No response from Gemini.''))
     = (\<not> truthy text)"
    by (simp add: generateStoryboardAnalysis_def split: option.split)
  have 2: "(generateStoryboardAnalysis (TextAnswer text) = Inl (Error ''Failed to parse storyboard data.''))
     = (truthy text \<and> JSON_parse (the text) = None)"
    by (simp add: generateStoryboardAnalysis_def split: option.split)
  have 3: "(generateStoryboardAnalysis (TextAnswer text) = Inr v)
     = (truthy text \<and> JSON_parse (the text) = Some v)"
    by (simp add: generateStoryboardAnalysis_def split: option.split)
  have 4: "generateStoryboardAnalysis response = Inl e \<longrightarrow>
        fst (handleGenerate_analysis response st) = None
        \<and> storyboard (snd (handleGenerate_analysis response st)) = None
        \<and> storyboardRef (snd (handleGenerate_analysis response st)) = None
        \<and> error (snd (handleGenerate_analysis response st)) \<noteq> None"
    by (simp add: handleGenerate_analysis_def Let_def resetStoryboard_def)
  show ?thesis using 1 2 3 4 by simp
qed

theorem generateStoryboardAnalysis_fails_iff_witness:
  "generateStoryboardAnalysis (TextAnswer (Some ''{'')) = Inl (Error ''Failed to parse storyboard data.'')
   \<and> fst (handleGenerate_analysis (TextAnswer (Some ''{'')) state0) = None
   \<and> storyboard (snd (handleGenerate_analysis (TextAnswer (Some ''{'')) state0)) = None
   \<and> storyboardRef (snd (handleGenerate_analysis (TextAnswer (Some ''{'')) state0)) = None
   \<and> error (snd (handleGenerate_analysis (TextAnswer (Some ''{'')) state0)) \<noteq> None"
proof -
  have h: "generateStoryboardAnalysis (TextAnswer (Some ''{'')) = Inl (Error ''Failed to parse storyboard data.'')"
    by (simp add: generateStoryboardAnalysis_def truthy_def parse_open_brace)
  show ?thesis
    using h generateStoryboardAnalysis_fails_iff
      [of "Some ''{''" "JNull" "TextAnswer (Some ''{'')" "Error ''Failed to parse storyboard data.''" state0]
    by blast
qed


end
